theory Spec2Isabelle
  imports Main "HOL-Library.Word"
begin

section \<open>AvantPinSet: data model\<close>

text \<open>
  The library manages a vector of \<open>PinData\<close> records (\<open>AvantPinSet.h\<close>). Its
  target is the ESP32, where \<open>unsigned long\<close> (the type of \<open>millis()\<close>, of the
  stored time stamps and of the durations) has 32 bits and wraps around; it is a
  \<open>32 word\<close> here. The \<open>int\<close> fields only ever take part in comparisons, in
  \<open>constrain\<close>, in the decimal conversion of the status and in the difference of
  two clamped end points, none of which can overflow, so they are HOL integers.

  A \<open>TimedActionCallback\<close> is a \<open>std::function<void(int)>\<close> supplied by the
  sketch. Its body is not part of the library: a callback is a name here
  (a number), \<open>nullptr\<close> is \<open>None\<close>, and calling it is recorded as the event
  \<open>Invoke\<close> in the output of the operation that calls it. A callback is taken
  not to call back into the object while \<open>update()\<close> runs.
\<close>

type_synonym ulong = "32 word"
type_synonym TimedActionCallback = "nat option"

record PinData =
  pinNumber :: int
  currentMode :: string
  currentValue :: int
  isTimerActive :: bool
  startTime :: ulong
  duration :: ulong
  targetValue :: int
  startPwmValue :: int
  finishPwmValue :: int
  isHoldingBeforeFade :: bool
  fadeStartTime :: ulong
  callback :: TimedActionCallback

text \<open>
  What an operation does to the world outside the records, in the order in which it
  does it: the three Arduino primitives the library calls, and the invocation of a
  callback with the pin number as its argument.
\<close>

datatype io =
    PinModeOutput int
  | DigitalWrite int int
  | AnalogWrite int int
  | Invoke nat int

fun io_pin :: "io \<Rightarrow> int" where
  "io_pin (PinModeOutput p) = p"
| "io_pin (DigitalWrite p v) = p"
| "io_pin (AnalogWrite p v) = p"
| "io_pin (Invoke c p) = p"

text \<open>
  Modelled from the spec: \<open>Arduino.h\<close> is not among the sources. It provides the
  two digital levels \<open>HIGH\<close> and \<open>LOW\<close> (the spec's boolean-like levels; 1 and 0
  on every Arduino core) and the macro \<open>constrain(amt, low, high)\<close>, which the
  spec describes as clamping into the interval.
\<close>

definition HIGH :: int where
  "HIGH = 1"

definition LOW :: int where
  "LOW = 0"

definition constrain :: "int \<Rightarrow> int \<Rightarrow> int \<Rightarrow> int" where
  "constrain amt low high = (if amt < low then low else if amt > high then high else amt)"

text \<open>
  Modelled from the spec: the \<open>String(int)\<close> constructor of the Arduino core is
  not among the sources; the spec calls its result the decimal string of the value.
\<close>

function decimal :: "nat \<Rightarrow> string" where
  "decimal n = (if n < 10 then [''0123456789'' ! n]
                else decimal (n div 10) @ [''0123456789'' ! (n mod 10)])"
  by pat_completeness auto
termination
  by (relation "measure id") auto

definition String_of_int :: "int \<Rightarrow> string" where
  "String_of_int v = (if v < 0 then CHR ''-'' # decimal (nat (- v)) else decimal (nat v))"

section \<open>Construction\<close>

definition newPinData :: "int \<Rightarrow> PinData" where
  "newPinData p =
     \<lparr> pinNumber = p, currentMode = ''digital'', currentValue = LOW,
       isTimerActive = False, startTime = 0, duration = 0, targetValue = 0,
       startPwmValue = 0, finishPwmValue = 0, isHoldingBeforeFade = False,
       fadeStartTime = 0, callback = None \<rparr>"

text \<open>
  The constructor: one record per entry of \<open>pinList\<close>, in order, each pin
  configured as an output and driven \<open>LOW\<close>. The array and its length are a list.
\<close>

fun AvantPinSet :: "int list \<Rightarrow> PinData list \<times> io list" where
  "AvantPinSet [] = ([], [])"
| "AvantPinSet (p # pinList) =
     (let pd = newPinData p;
          (pins, out) = AvantPinSet pinList
      in (pd # pins, PinModeOutput (pinNumber pd) # DigitalWrite (pinNumber pd) (currentValue pd) # out))"

section \<open>Lookup\<close>

text \<open>
  \<open>findPinData\<close> returns a pointer to the first record with the given number, or
  \<open>nullptr\<close>. The pointer is the index of the record in the vector.
\<close>

fun findPinData :: "PinData list \<Rightarrow> int \<Rightarrow> nat option" where
  "findPinData [] pinNum = None"
| "findPinData (pin # pins) pinNum =
     (if pinNumber pin = pinNum then Some 0 else map_option Suc (findPinData pins pinNum))"

text \<open>
  Every command starts with \<open>PinData* pin = findPinData(pinNum); if (!pin) return;\<close>
  and then works on \<open>*pin\<close> only. \<open>on_pin\<close> is that prologue: \<open>body\<close> is what the
  command does to the record it found.
\<close>

definition on_pin :: "PinData list \<Rightarrow> int \<Rightarrow> (PinData \<Rightarrow> PinData \<times> io list) \<Rightarrow> PinData list \<times> io list" where
  "on_pin pins pinNum body =
     (case findPinData pins pinNum of
        None \<Rightarrow> (pins, [])
      | Some i \<Rightarrow> (let (pin', out) = body (pins ! i) in (pins[i := pin'], out)))"

section \<open>Commands\<close>

definition digitalSet_body :: "int \<Rightarrow> PinData \<Rightarrow> PinData \<times> io list" where
  "digitalSet_body state pin =
     (let pin1 = pin\<lparr>isTimerActive := False, callback := None\<rparr>;
          out1 = (if currentMode pin1 = ''pwm'' \<or> currentMode pin1 = ''fading''
                  then [PinModeOutput (pinNumber pin1)] else []);
          pin2 = pin1\<lparr>currentMode := ''digital'',
                      currentValue := (if state = HIGH then HIGH else LOW)\<rparr>
      in (pin2, out1 @ [DigitalWrite (pinNumber pin2) (currentValue pin2)]))"

definition digitalSet :: "PinData list \<Rightarrow> int \<Rightarrow> int \<Rightarrow> PinData list \<times> io list" where
  "digitalSet pins pinNum state = on_pin pins pinNum (digitalSet_body state)"

text \<open>
  The commands that arm a timer read the clock; \<open>now\<close> is the value \<open>millis()\<close>
  returns there.
\<close>

definition digitalSetTime_body :: "int \<Rightarrow> ulong \<Rightarrow> ulong \<Rightarrow> TimedActionCallback \<Rightarrow> PinData \<Rightarrow> PinData \<times> io list" where
  "digitalSetTime_body state delaySeconds now cb pin =
     (let out1 = (if currentMode pin = ''pwm'' \<or> currentMode pin = ''fading''
                  then [PinModeOutput (pinNumber pin)] else []);
          pin1 = pin\<lparr>currentMode := ''digital'',
                     currentValue := (if state = HIGH then HIGH else LOW)\<rparr>;
          out2 = [DigitalWrite (pinNumber pin1) (currentValue pin1)];
          pin2 = pin1\<lparr>isTimerActive := True, startTime := now,
                      duration := delaySeconds * 1000,
                      targetValue := (if state = HIGH then LOW else HIGH),
                      callback := cb\<rparr>
      in (pin2, out1 @ out2))"

definition digitalSetTime :: "PinData list \<Rightarrow> int \<Rightarrow> int \<Rightarrow> ulong \<Rightarrow> ulong \<Rightarrow> TimedActionCallback \<Rightarrow> PinData list \<times> io list" where
  "digitalSetTime pins pinNum state delaySeconds now cb =
     on_pin pins pinNum (digitalSetTime_body state delaySeconds now cb)"

definition pwmSet_body :: "int \<Rightarrow> PinData \<Rightarrow> PinData \<times> io list" where
  "pwmSet_body pwmValue pin =
     (let pwmValue' = constrain pwmValue 0 255;
          pin1 = pin\<lparr>isTimerActive := False, callback := None\<rparr>;
          pin2 = pin1\<lparr>currentMode := ''pwm'', currentValue := pwmValue'\<rparr>
      in (pin2, [AnalogWrite (pinNumber pin2) (currentValue pin2)]))"

definition pwmSet :: "PinData list \<Rightarrow> int \<Rightarrow> int \<Rightarrow> PinData list \<times> io list" where
  "pwmSet pins pinNum pwmValue = on_pin pins pinNum (pwmSet_body pwmValue)"

definition pwmSetTime_body :: "int \<Rightarrow> ulong \<Rightarrow> ulong \<Rightarrow> TimedActionCallback \<Rightarrow> PinData \<Rightarrow> PinData \<times> io list" where
  "pwmSetTime_body pwmValue delaySeconds now cb pin =
     (let pwmValue' = constrain pwmValue 0 255;
          pin1 = pin\<lparr>currentMode := ''pwm'', currentValue := pwmValue'\<rparr>;
          out1 = [AnalogWrite (pinNumber pin1) (currentValue pin1)];
          pin2 = pin1\<lparr>isTimerActive := True, startTime := now,
                      duration := delaySeconds * 1000,
                      targetValue := (if currentValue pin1 = 0 then 255 else 0),
                      callback := cb\<rparr>
      in (pin2, out1))"

definition pwmSetTime :: "PinData list \<Rightarrow> int \<Rightarrow> int \<Rightarrow> ulong \<Rightarrow> ulong \<Rightarrow> TimedActionCallback \<Rightarrow> PinData list \<times> io list" where
  "pwmSetTime pins pinNum pwmValue delaySeconds now cb =
     on_pin pins pinNum (pwmSetTime_body pwmValue delaySeconds now cb)"

text \<open>
  \<open>pwmFade\<close> reads the clock twice, once for \<open>startTime\<close> and once for
  \<open>fadeStartTime\<close>: \<open>now\<close> and \<open>now'\<close>. It assigns no callback.
\<close>

definition pwmFade_body :: "int \<Rightarrow> int \<Rightarrow> ulong \<Rightarrow> ulong \<Rightarrow> PinData \<Rightarrow> PinData \<times> io list" where
  "pwmFade_body beginPwmValue finishPwmValue' now now' pin =
     (let b = constrain beginPwmValue 0 255;
          f = constrain finishPwmValue' 0 255;
          pin1 = pin\<lparr>currentMode := ''fading'', isTimerActive := True, startTime := now,
                     duration := 1000, startPwmValue := b, finishPwmValue := f,
                     currentValue := b, isHoldingBeforeFade := False,
                     fadeStartTime := now'\<rparr>
      in (pin1, [AnalogWrite (pinNumber pin1) (startPwmValue pin1)]))"

definition pwmFade :: "PinData list \<Rightarrow> int \<Rightarrow> int \<Rightarrow> int \<Rightarrow> ulong \<Rightarrow> ulong \<Rightarrow> PinData list \<times> io list" where
  "pwmFade pins pinNum beginPwmValue finishPwmValue' now now' =
     on_pin pins pinNum (pwmFade_body beginPwmValue finishPwmValue' now now')"

definition pwmFadeTime_body :: "int \<Rightarrow> int \<Rightarrow> ulong \<Rightarrow> ulong \<Rightarrow> TimedActionCallback \<Rightarrow> PinData \<Rightarrow> PinData \<times> io list" where
  "pwmFadeTime_body beginPwmValue finishPwmValue' holdTimeSeconds now cb pin =
     (let b = constrain beginPwmValue 0 255;
          f = constrain finishPwmValue' 0 255;
          pin1 = pin\<lparr>currentMode := ''fading'', isTimerActive := True, startTime := now,
                     duration := holdTimeSeconds * 1000, startPwmValue := b,
                     finishPwmValue := f, currentValue := b,
                     isHoldingBeforeFade := True, fadeStartTime := 0, callback := cb\<rparr>
      in (pin1, [AnalogWrite (pinNumber pin1) (startPwmValue pin1)]))"

definition pwmFadeTime :: "PinData list \<Rightarrow> int \<Rightarrow> int \<Rightarrow> int \<Rightarrow> ulong \<Rightarrow> ulong \<Rightarrow> TimedActionCallback \<Rightarrow> PinData list \<times> io list" where
  "pwmFadeTime pins pinNum beginPwmValue finishPwmValue' holdTimeSeconds now cb =
     on_pin pins pinNum (pwmFadeTime_body beginPwmValue finishPwmValue' holdTimeSeconds now cb)"

section \<open>The poll loop\<close>

text \<open>
  \<open>if (pin.callback) { pin.callback(pin.pinNumber); pin.callback = nullptr; }\<close>
\<close>

definition fire :: "PinData \<Rightarrow> PinData \<times> io list" where
  "fire pin =
     (case callback pin of
        None \<Rightarrow> (pin, [])
      | Some c \<Rightarrow> (pin\<lparr>callback := None\<rparr>, [Invoke c (pinNumber pin)]))"

text \<open>
  The body of the loop of \<open>update()\<close> for one record. The level written in the
  middle of a fade is computed in single-precision floating point,
  \<open>startPwmValue + ((float)elapsed / duration) * (finishPwmValue - startPwmValue)\<close>
  converted to \<open>int\<close>. That expression is the parameter \<open>level\<close>, applied to
  \<open>elapsed\<close>, \<open>duration\<close>, \<open>startPwmValue\<close> and \<open>finishPwmValue\<close>: what is proved
  below about \<open>update\<close> holds whatever the floating-point unit computes.
\<close>

type_synonym fade_level = "ulong \<Rightarrow> ulong \<Rightarrow> int \<Rightarrow> int \<Rightarrow> int"

definition update_pin :: "fade_level \<Rightarrow> ulong \<Rightarrow> PinData \<Rightarrow> PinData \<times> io list" where
  "update_pin level currentMillis pin =
     (if isTimerActive pin then
        if currentMode pin = ''fading'' \<and> isHoldingBeforeFade pin then
          (let pin1 = (if currentMillis - startTime pin \<ge> duration pin
                       then pin\<lparr>isHoldingBeforeFade := False,
                                fadeStartTime := currentMillis, duration := 1000\<rparr>
                       else pin)
           in (pin1, [AnalogWrite (pinNumber pin1) (startPwmValue pin1)]))
        else if currentMode pin = ''fading'' \<and> \<not> isHoldingBeforeFade pin then
          (let elapsed = currentMillis - fadeStartTime pin
           in if elapsed \<ge> duration pin then
                (let pin1 = pin\<lparr>currentValue := finishPwmValue pin\<rparr>;
                     out1 = [AnalogWrite (pinNumber pin1) (currentValue pin1)];
                     pin2 = pin1\<lparr>currentMode := ''pwm'', isTimerActive := False\<rparr>;
                     (pin3, out2) = fire pin2
                 in (pin3, out1 @ out2))
              else
                (pin, [AnalogWrite (pinNumber pin)
                         (level elapsed (duration pin) (startPwmValue pin) (finishPwmValue pin))]))
        else if currentMillis - startTime pin \<ge> duration pin then
          (let pin1 = pin\<lparr>isTimerActive := False\<rparr>;
               (pin2, out1) =
                 (if currentMode pin1 = ''digital'' then
                    (let q = pin1\<lparr>currentValue := targetValue pin1\<rparr>
                     in (q, [DigitalWrite (pinNumber q) (currentValue q)]))
                  else if currentMode pin1 = ''pwm'' then
                    (let q = pin1\<lparr>currentValue := targetValue pin1\<rparr>
                     in (q, [AnalogWrite (pinNumber q) (currentValue q)]))
                  else (pin1, []));
               (pin3, out2) = fire pin2
           in (pin3, out1 @ out2))
        else (pin, [])
      else (pin, []))"

text \<open>\<open>update()\<close>: the loop over the vector, in order, at one reading of the clock.\<close>

fun update :: "fade_level \<Rightarrow> ulong \<Rightarrow> PinData list \<Rightarrow> PinData list \<times> io list" where
  "update level currentMillis [] = ([], [])"
| "update level currentMillis (pin # pins) =
     (let (pin', out1) = update_pin level currentMillis pin;
          (pins', out2) = update level currentMillis pins
      in (pin' # pins', out1 @ out2))"

section \<open>Status\<close>

text \<open>
  \<open>pinStatus\<close> fills a \<open>JsonDocument\<close> and serialises it with ArduinoJson, which
  is not part of the library. The document is the list of its members, key and
  value, in the order in which they are set.
\<close>

definition pinStatus :: "PinData list \<Rightarrow> int \<Rightarrow> (string \<times> string) list" where
  "pinStatus pins pinNum =
     (case findPinData pins pinNum of
        Some i \<Rightarrow>
          (let pin = pins ! i;
               valueStr = (if currentMode pin = ''digital''
                           then (if currentValue pin = HIGH then ''HIGH'' else ''LOW'')
                           else String_of_int (currentValue pin))
           in [(''mode'', currentMode pin), (''value'', valueStr)])
      | None \<Rightarrow> [(''error'', ''Pin not managed by this instance'')])"

section \<open>Sequences of calls\<close>

text \<open>
  The sketch constructs the object and then calls its methods in any order, each at
  some reading of the clock. A state is the vector together with everything done to
  the world so far.
\<close>

datatype call =
    DigitalSet int int
  | DigitalSetTime int int ulong ulong TimedActionCallback
  | PwmSet int int
  | PwmSetTime int int ulong ulong TimedActionCallback
  | PwmFade int int int ulong ulong
  | PwmFadeTime int int int ulong ulong TimedActionCallback
  | Update ulong

fun perform :: "fade_level \<Rightarrow> PinData list \<Rightarrow> call \<Rightarrow> PinData list \<times> io list" where
  "perform level pins (DigitalSet p st) = digitalSet pins p st"
| "perform level pins (DigitalSetTime p st d now cb) = digitalSetTime pins p st d now cb"
| "perform level pins (PwmSet p v) = pwmSet pins p v"
| "perform level pins (PwmSetTime p v d now cb) = pwmSetTime pins p v d now cb"
| "perform level pins (PwmFade p b f now now') = pwmFade pins p b f now now'"
| "perform level pins (PwmFadeTime p b f h now cb) = pwmFadeTime pins p b f h now cb"
| "perform level pins (Update now) = update level now pins"

definition after :: "fade_level \<Rightarrow> PinData list \<times> io list \<Rightarrow> call \<Rightarrow> PinData list \<times> io list" where
  "after level s c = (let (pins', out) = perform level (fst s) c in (pins', snd s @ out))"

definition run :: "fade_level \<Rightarrow> int list \<Rightarrow> call list \<Rightarrow> PinData list \<times> io list" where
  "run level pinList calls = foldl (after level) (AvantPinSet pinList) calls"

inductive reachable :: "fade_level \<Rightarrow> PinData list \<times> io list \<Rightarrow> bool" for level where
  constructed: "reachable level (AvantPinSet pinList)"
| called: "reachable level s \<Longrightarrow> reachable level (after level s c)"

text \<open>Several polls in a row, at the given readings of the clock.\<close>

fun updates :: "fade_level \<Rightarrow> ulong list \<Rightarrow> PinData list \<Rightarrow> PinData list \<times> io list" where
  "updates level [] pins = (pins, [])"
| "updates level (t # ts) pins =
     (let (pins1, out1) = update level t pins;
          (pins2, out2) = updates level ts pins1
      in (pins2, out1 @ out2))"

text \<open>What happened at one pin, and the level last written to it.\<close>

definition pin_out :: "int \<Rightarrow> io list \<Rightarrow> io list" where
  "pin_out p out = filter (\<lambda>e. io_pin e = p) out"

fun written :: "io \<Rightarrow> int option" where
  "written (DigitalWrite p v) = Some v"
| "written (AnalogWrite p v) = Some v"
| "written e = None"

fun last_written :: "int \<Rightarrow> io list \<Rightarrow> int option" where
  "last_written p [] = None"
| "last_written p (e # out) =
     (case last_written p out of
        Some v \<Rightarrow> Some v
      | None \<Rightarrow> (if io_pin e = p then written e else None))"

text \<open>
  The floating-point expression of \<open>update()\<close> read in exact arithmetic: the
  quotient \<open>(start * duration + elapsed * (finish - start)) / duration\<close>,
  truncated towards zero as the conversion to \<open>int\<close> does. It agrees with the
  single-precision computation wherever every intermediate result is representable,
  as at \<open>elapsed = 500\<close>, \<open>duration = 1000\<close>, where the progress is one half.
  It only serves to run \<open>update\<close> on concrete inputs.
\<close>

definition exact_level :: fade_level where
  "exact_level elapsed dur a b =
     (let num = a * uint dur + uint elapsed * (b - a)
      in sgn num * (\<bar>num\<bar> div uint dur))"

text \<open>The pin a command is called with; \<open>update()\<close> takes none.\<close>

fun addressed :: "call \<Rightarrow> int option" where
  "addressed (DigitalSet p st) = Some p"
| "addressed (DigitalSetTime p st d now cb) = Some p"
| "addressed (PwmSet p v) = Some p"
| "addressed (PwmSetTime p v d now cb) = Some p"
| "addressed (PwmFade p b f now now') = Some p"
| "addressed (PwmFadeTime p b f h now cb) = Some p"
| "addressed (Update now) = None"

text \<open>
  Records that no command can reach, because an earlier record carries the same
  number, never have a timer: \<open>spares_idle\<close> says so of a vector.
\<close>

definition spares_idle :: "PinData list \<Rightarrow> bool" where
  "spares_idle pins \<longleftrightarrow>
     (\<forall>j<length pins. findPinData pins (pinNumber (pins ! j)) \<noteq> Some j \<longrightarrow> \<not> isTimerActive (pins ! j))"

text \<open>The loop body of \<open>update()\<close> applied to one record at several polls in a row.\<close>

fun polls :: "fade_level \<Rightarrow> ulong list \<Rightarrow> PinData \<Rightarrow> PinData \<times> io list" where
  "polls level [] pin = (pin, [])"
| "polls level (t # ts) pin =
     (let (pin1, out1) = update_pin level t pin;
          (pin2, out2) = polls level ts pin1
      in (pin2, out1 @ out2))"

text \<open>
  How the stored value of a record relates to \<open>lw\<close>, the level last written to its
  pin: they agree unless a fade is interpolating, and a record in fading mode
  holds the start value of the fade. \<open>values_in_step\<close> says it of every record that
  its own number finds.
\<close>

definition in_step :: "PinData \<Rightarrow> int option \<Rightarrow> bool" where
  "in_step pin lw \<longleftrightarrow>
     (currentMode pin = ''fading'' \<longrightarrow> currentValue pin = startPwmValue pin)
     \<and> (\<not> (currentMode pin = ''fading'' \<and> \<not> isHoldingBeforeFade pin) \<longrightarrow> lw = Some (currentValue pin))"

definition values_in_step :: "PinData list \<times> io list \<Rightarrow> bool" where
  "values_in_step s \<longleftrightarrow>
     (\<forall>j<length (fst s). findPinData (fst s) (pinNumber (fst s ! j)) = Some j \<longrightarrow>
        in_step (fst s ! j) (last_written (pinNumber (fst s ! j)) (snd s)))"

text \<open>
  The range of a duty cycle, for what a record stores and for what is written to a
  pin. \<open>level_in_range\<close> is the one thing asked of the floating-point
  interpolation: between two end points in range, before the span is over, it
  gives a level in range.
\<close>

definition duty :: "int \<Rightarrow> bool" where
  "duty v \<longleftrightarrow> 0 \<le> v \<and> v \<le> 255"

definition stored_in_range :: "PinData \<Rightarrow> bool" where
  "stored_in_range pin \<longleftrightarrow>
     duty (currentValue pin) \<and> duty (targetValue pin)
     \<and> duty (startPwmValue pin) \<and> duty (finishPwmValue pin)"

definition written_in_range :: "io \<Rightarrow> bool" where
  "written_in_range e \<longleftrightarrow> (case written e of None \<Rightarrow> True | Some v \<Rightarrow> duty v)"

definition level_in_range :: "fade_level \<Rightarrow> bool" where
  "level_in_range level \<longleftrightarrow>
     (\<forall>elapsed dur a b. elapsed < dur \<and> duty a \<and> duty b \<longrightarrow> duty (level elapsed dur a b))"

text \<open>The three modes the library knows.\<close>

definition known_mode :: "PinData \<Rightarrow> bool" where
  "known_mode pin \<longleftrightarrow> currentMode pin \<in> {''digital'', ''pwm'', ''fading''}"

section \<open>Lookup and the command prologue\<close>

lemma findPinData_None_iff: "findPinData pins p = None \<longleftrightarrow> p \<notin> pinNumber ` set pins"
  by (induction pins) auto

lemma findPinData_Some_first:
  "findPinData pins p = Some i \<Longrightarrow>
     i < length pins \<and> pinNumber (pins ! i) = p \<and> (\<forall>j<i. pinNumber (pins ! j) \<noteq> p)"
proof (induction pins arbitrary: i)
  case Nil
  then show ?case by simp
next
  case (Cons a pins)
  show ?case
  proof (cases "pinNumber a = p")
    case True
    with Cons.prems show ?thesis by simp
  next
    case False
    with Cons.prems obtain k where k: "findPinData pins p = Some k" "i = Suc k"
      by auto
    from Cons.IH [OF k(1)] False k(2) show ?thesis
      by (auto simp: nth_Cons split: nat.splits)
  qed
qed

lemma findPinData_cong:
  "map pinNumber pins' = map pinNumber pins \<Longrightarrow> findPinData pins' p = findPinData pins p"
proof (induction pins arbitrary: pins')
  case Nil
  then show ?case by simp
next
  case (Cons a pins)
  from Cons.prems obtain b qs where q: "pins' = b # qs" by (cases pins') auto
  with Cons.prems have "pinNumber b = pinNumber a" and "map pinNumber qs = map pinNumber pins"
    by simp_all
  with Cons.IH [of qs] have "findPinData qs p = findPinData pins p" and "pinNumber b = pinNumber a"
    by simp_all
  then show ?case
    by (simp add: q)
qed

lemma on_pin_None: "findPinData pins p = None \<Longrightarrow> on_pin pins p body = (pins, [])"
  by (simp add: on_pin_def)

lemma on_pin_Some:
  "findPinData pins p = Some i \<Longrightarrow>
     on_pin pins p body = (pins[i := fst (body (pins ! i))], snd (body (pins ! i)))"
  by (simp add: on_pin_def split: prod.splits)

section \<open>Unknown pins\<close>

text \<open>
  C7. A command given a pin number that no record carries returns at once: the
  vector is unchanged and nothing is written or called. \<open>pinStatus\<close> on such a
  number answers with the single member \<open>error\<close>, and has no \<open>mode\<close> and no
  \<open>value\<close>.
\<close>

theorem unknown_pin_inert:
  assumes "pinNum \<notin> pinNumber ` set pins"
  shows "digitalSet pins pinNum state = (pins, [])
       \<and> digitalSetTime pins pinNum state delaySeconds now cb = (pins, [])
       \<and> pwmSet pins pinNum v = (pins, [])
       \<and> pwmSetTime pins pinNum v delaySeconds now cb = (pins, [])
       \<and> pwmFade pins pinNum b f now now' = (pins, [])
       \<and> pwmFadeTime pins pinNum b f holdSeconds now cb = (pins, [])
       \<and> pinStatus pins pinNum = [(''error'', ''Pin not managed by this instance'')]
       \<and> map_of (pinStatus pins pinNum) ''mode'' = None
       \<and> map_of (pinStatus pins pinNum) ''value'' = None"
proof -
  from assms have n: "findPinData pins pinNum = None"
    by (simp add: findPinData_None_iff)
  show ?thesis
    by (simp add: n on_pin_None digitalSet_def digitalSetTime_def pwmSet_def pwmSetTime_def
        pwmFade_def pwmFadeTime_def pinStatus_def)
qed

theorem unknown_pin_inert_witness:
  "(7::int) \<notin> pinNumber ` set (fst (AvantPinSet [2, 6]))
   \<and> digitalSet (fst (AvantPinSet [2, 6])) 7 1 = (fst (AvantPinSet [2, 6]), [])
   \<and> pwmFadeTime (fst (AvantPinSet [2, 6])) 7 10 200 2 0 (Some 1) = (fst (AvantPinSet [2, 6]), [])
   \<and> pinStatus (fst (AvantPinSet [2, 6])) 7 = [(''error'', ''Pin not managed by this instance'')]"
proof -
  have h: "(7::int) \<notin> pinNumber ` set (fst (AvantPinSet [2, 6]))"
    by (simp add: newPinData_def)
  from unknown_pin_inert [OF h, where state = 1 and delaySeconds = 5 and v = 88 and b = 10
      and f = 200 and holdSeconds = 2 and now = 0 and now' = 0 and cb = "Some 1"] h
  show ?thesis
    by simp
qed

section \<open>The commands on the record they address\<close>

lemma HIGH_neq_LOW: "HIGH \<noteq> LOW"
  by (simp add: HIGH_def LOW_def)

lemma constrain_cases:
  "(v < 0 \<longrightarrow> constrain v 0 255 = 0) \<and> (255 < v \<longrightarrow> constrain v 0 255 = 255)
   \<and> (0 \<le> v \<and> v \<le> 255 \<longrightarrow> constrain v 0 255 = v)"
  by (simp add: constrain_def)

text \<open>What each command does to the record it addresses.\<close>

lemma digitalSet_Some:
  assumes "findPinData pins p = Some i"
  shows "digitalSet pins p st = (pins[i := fst (digitalSet_body st (pins ! i))], snd (digitalSet_body st (pins ! i)))"
  using assms by (simp add: digitalSet_def on_pin_Some)

lemma digitalSetTime_Some:
  assumes "findPinData pins p = Some i"
  shows "digitalSetTime pins p st d now cb =
    (pins[i := fst (digitalSetTime_body st d now cb (pins ! i))], snd (digitalSetTime_body st d now cb (pins ! i)))"
  using assms by (simp add: digitalSetTime_def on_pin_Some)

lemma pwmSet_Some:
  assumes "findPinData pins p = Some i"
  shows "pwmSet pins p v = (pins[i := fst (pwmSet_body v (pins ! i))], snd (pwmSet_body v (pins ! i)))"
  using assms by (simp add: pwmSet_def on_pin_Some)

lemma pwmSetTime_Some:
  assumes "findPinData pins p = Some i"
  shows "pwmSetTime pins p v d now cb =
    (pins[i := fst (pwmSetTime_body v d now cb (pins ! i))], snd (pwmSetTime_body v d now cb (pins ! i)))"
  using assms by (simp add: pwmSetTime_def on_pin_Some)

lemma pwmFade_Some:
  assumes "findPinData pins p = Some i"
  shows "pwmFade pins p b f now now' =
    (pins[i := fst (pwmFade_body b f now now' (pins ! i))], snd (pwmFade_body b f now now' (pins ! i)))"
  using assms by (simp add: pwmFade_def on_pin_Some)

lemma pwmFadeTime_Some:
  assumes "findPinData pins p = Some i"
  shows "pwmFadeTime pins p b f h now cb =
    (pins[i := fst (pwmFadeTime_body b f h now cb (pins ! i))], snd (pwmFadeTime_body b f h now cb (pins ! i)))"
  using assms by (simp add: pwmFadeTime_def on_pin_Some)

section \<open>Digital levels\<close>

text \<open>
  C10. \<open>digitalSet\<close> and \<open>digitalSetTime\<close> on a configured pin store and write
  \<open>HIGH\<close> when \<open>state\<close> is exactly \<open>HIGH\<close> and \<open>LOW\<close> for every other integer;
  \<open>digitalSetTime\<close> then arms the other level as the target of the timer, so
  \<open>HIGH\<close> for every \<open>state\<close> other than \<open>HIGH\<close>. The two levels differ, so only
  \<open>state = HIGH\<close> gives a \<open>HIGH\<close> output.
\<close>

theorem digital_state_normalised:
  assumes "findPinData pins pinNum = Some i"
  shows "currentValue (fst (digitalSet pins pinNum state) ! i) = (if state = HIGH then HIGH else LOW)
       \<and> snd (digitalSet pins pinNum state) =
           (if currentMode (pins ! i) = ''pwm'' \<or> currentMode (pins ! i) = ''fading''
            then [PinModeOutput pinNum] else [])
           @ [DigitalWrite pinNum (if state = HIGH then HIGH else LOW)]
       \<and> currentValue (fst (digitalSetTime pins pinNum state delaySeconds now cb) ! i) =
           (if state = HIGH then HIGH else LOW)
       \<and> targetValue (fst (digitalSetTime pins pinNum state delaySeconds now cb) ! i) =
           (if state = HIGH then LOW else HIGH)
       \<and> snd (digitalSetTime pins pinNum state delaySeconds now cb) =
           (if currentMode (pins ! i) = ''pwm'' \<or> currentMode (pins ! i) = ''fading''
            then [PinModeOutput pinNum] else [])
           @ [DigitalWrite pinNum (if state = HIGH then HIGH else LOW)]
       \<and> HIGH \<noteq> LOW"
proof -
  from findPinData_Some_first [OF assms] have i: "i < length pins" and n: "pinNumber (pins ! i) = pinNum"
    by simp_all
  show ?thesis
    by (simp add: digitalSet_Some [OF assms] digitalSetTime_Some [OF assms] i n
        digitalSet_body_def digitalSetTime_body_def HIGH_neq_LOW Let_def)
qed

theorem digital_state_normalised_witness:
  "findPinData (fst (AvantPinSet [2, 6])) 6 = Some 1
   \<and> currentValue (fst (digitalSet (fst (AvantPinSet [2, 6])) 6 2) ! 1) = LOW
   \<and> snd (digitalSet (fst (AvantPinSet [2, 6])) 6 2) = [DigitalWrite 6 LOW]
   \<and> targetValue (fst (digitalSetTime (fst (AvantPinSet [2, 6])) 6 2 5 0 None) ! 1) = HIGH"
proof -
  have h: "findPinData (fst (AvantPinSet [2, 6])) 6 = Some 1"
    by (simp add: newPinData_def)
  have m: "currentMode (fst (AvantPinSet [2, 6]) ! 1) = ''digital''" and "(2::int) \<noteq> HIGH"
    by (simp_all add: newPinData_def HIGH_def)
  with digital_state_normalised [OF h, where state = 2 and delaySeconds = 5 and now = 0 and cb = None] h
  show ?thesis
    by simp
qed

section \<open>One record per command\<close>

lemma AvantPinSet_numbers: "map pinNumber (fst (AvantPinSet pinList)) = pinList"
  by (induction pinList) (auto simp: newPinData_def Let_def split: prod.splits)

lemma body_pinNumber:
  "pinNumber (fst (digitalSet_body st pin)) = pinNumber pin"
  "pinNumber (fst (digitalSetTime_body st d now cb pin)) = pinNumber pin"
  "pinNumber (fst (pwmSet_body v pin)) = pinNumber pin"
  "pinNumber (fst (pwmSetTime_body v d now cb pin)) = pinNumber pin"
  "pinNumber (fst (pwmFade_body b f now now' pin)) = pinNumber pin"
  "pinNumber (fst (pwmFadeTime_body b f h now cb pin)) = pinNumber pin"
  by (simp_all add: digitalSet_body_def digitalSetTime_body_def pwmSet_body_def
      pwmSetTime_body_def pwmFade_body_def pwmFadeTime_body_def Let_def)

lemma fire_pinNumber: "pinNumber (fst (fire pin)) = pinNumber pin"
  by (simp add: fire_def split: option.splits)

lemma update_pin_pinNumber: "pinNumber (fst (update_pin level t pin)) = pinNumber pin"
  by (simp add: update_pin_def Let_def fire_pinNumber split: prod.splits option.splits)
     (auto simp: fire_def split: option.splits)

lemma update_pin_pinNumber':
  "update_pin level t pin = (pin', out) \<Longrightarrow> pinNumber pin' = pinNumber pin"
  using update_pin_pinNumber [of level t pin] by simp

lemma update_numbers: "map pinNumber (fst (update level t pins)) = map pinNumber pins"
  by (induction pins) (auto simp: update_pin_pinNumber' split: prod.splits)

lemma on_pin_numbers:
  assumes "\<And>pin. pinNumber (fst (body pin)) = pinNumber pin"
  shows "map pinNumber (fst (on_pin pins p body)) = map pinNumber pins"
proof (cases "findPinData pins p")
  case None
  then show ?thesis by (simp add: on_pin_None)
next
  case (Some i)
  have "map pinNumber (pins[i := fst (body (pins ! i))]) = (map pinNumber pins)[i := pinNumber (pins ! i)]"
    by (simp add: map_update assms)
  also have "\<dots> = map pinNumber pins"
  proof (cases "i < length pins")
    case True
    then have "(map pinNumber pins)[i := map pinNumber pins ! i] = map pinNumber pins"
      by (simp only: list_update_id)
    with True show ?thesis by simp
  next
    case False
    then show ?thesis by (simp add: list_update_beyond)
  qed
  finally show ?thesis
    by (simp add: on_pin_Some [OF Some])
qed

lemma perform_numbers: "map pinNumber (fst (perform level pins c)) = map pinNumber pins"
  by (cases c)
     (simp_all add: update_numbers on_pin_numbers body_pinNumber digitalSet_def digitalSetTime_def
        pwmSet_def pwmSetTime_def pwmFade_def pwmFadeTime_def)

lemma on_pin_frame:
  "length (fst (on_pin pins p body)) = length pins
   \<and> (\<forall>j<length pins. findPinData pins p \<noteq> Some j \<longrightarrow> fst (on_pin pins p body) ! j = pins ! j)"
proof (cases "findPinData pins p")
  case None
  then show ?thesis by (simp add: on_pin_None)
next
  case (Some i)
  then show ?thesis by (auto simp: on_pin_Some)
qed

lemma perform_frame:
  assumes "addressed c = Some p"
  shows "length (fst (perform level pins c)) = length pins
   \<and> (\<forall>j<length pins. findPinData pins p \<noteq> Some j \<longrightarrow> fst (perform level pins c) ! j = pins ! j)"
  using assms
  by (cases c)
     (simp_all add: on_pin_frame digitalSet_def digitalSetTime_def
        pwmSet_def pwmSetTime_def pwmFade_def pwmFadeTime_def)

lemma pinStatus_one_record:
  assumes "findPinData pins p = Some i"
  shows "pinStatus pins p = pinStatus [pins ! i] p"
proof -
  from findPinData_Some_first [OF assms] have "pinNumber (pins ! i) = p" by simp
  then show ?thesis
    by (simp add: pinStatus_def assms)
qed

lemma AvantPinSet_eq:
  "AvantPinSet pinList =
     (map newPinData pinList, concat (map (\<lambda>p. [PinModeOutput p, DigitalWrite p LOW]) pinList))"
  by (induction pinList) (simp_all add: Let_def newPinData_def)

text \<open>
  C9. The constructor makes one record per entry of its list, duplicates included.
  \<open>findPinData\<close> finds the first record with the number asked for, a command
  changes no record but that one and keeps the length of the vector, \<open>pinStatus\<close>
  reads that record alone, and no call changes which record a number finds.
\<close>

theorem first_match_only:
  "map pinNumber (fst (AvantPinSet pinList)) = pinList
   \<and> (findPinData pins p = Some i \<longrightarrow>
        i < length pins \<and> pinNumber (pins ! i) = p \<and> (\<forall>j<i. pinNumber (pins ! j) \<noteq> p)
        \<and> pinStatus pins p = pinStatus [pins ! i] p)
   \<and> (addressed c = Some p \<longrightarrow>
        length (fst (perform level pins c)) = length pins
        \<and> (\<forall>j<length pins. findPinData pins p \<noteq> Some j \<longrightarrow> fst (perform level pins c) ! j = pins ! j))
   \<and> findPinData (fst (perform level pins c)) p = findPinData pins p"
  using AvantPinSet_numbers [of pinList] findPinData_Some_first [of pins p i]
    pinStatus_one_record [of pins p i] perform_frame [of c p level pins]
    findPinData_cong [OF perform_numbers, of level pins c p]
  by blast

theorem first_match_only_witness:
  "map pinNumber (fst (AvantPinSet [4, 4])) = [4, 4]
   \<and> findPinData (fst (AvantPinSet [4, 4])) 4 = Some 0
   \<and> addressed (PwmSet 4 88) = Some 4
   \<and> length (fst (perform exact_level (fst (AvantPinSet [4, 4])) (PwmSet 4 88))) = 2
   \<and> fst (perform exact_level (fst (AvantPinSet [4, 4])) (PwmSet 4 88)) ! 1 = newPinData 4
   \<and> pinStatus (fst (AvantPinSet [4, 4])) 4 = pinStatus [newPinData 4] 4"
proof -
  have pins: "fst (AvantPinSet [4, 4]) = [newPinData 4, newPinData 4]"
    by (simp add: AvantPinSet_eq)
  have h: "findPinData [newPinData 4, newPinData 4] 4 = Some 0"
    by (simp add: newPinData_def)
  have a: "addressed (PwmSet 4 88) = Some 4"
    by simp
  note t = first_match_only [where pinList = "[4, 4]" and pins = "[newPinData 4, newPinData 4]"
      and p = 4 and i = 0 and c = "PwmSet 4 88" and level = exact_level]
  from t h a have f: "\<forall>j<length [newPinData 4, newPinData 4].
      findPinData [newPinData 4, newPinData 4] 4 \<noteq> Some j \<longrightarrow>
      fst (perform exact_level [newPinData 4, newPinData 4] (PwmSet 4 88)) ! j
        = [newPinData 4, newPinData 4] ! j"
    by blast
  from f [rule_format, of 1] h
  have 1: "fst (perform exact_level [newPinData 4, newPinData 4] (PwmSet 4 88)) ! 1 = newPinData 4"
    by simp
  from t h a have "length (fst (perform exact_level [newPinData 4, newPinData 4] (PwmSet 4 88)))
      = length [newPinData 4, newPinData 4]"
    by blast
  then have 2: "length (fst (perform exact_level [newPinData 4, newPinData 4] (PwmSet 4 88))) = 2"
    by simp
  from t h have "pinStatus [newPinData 4, newPinData 4] 4 = pinStatus [[newPinData 4, newPinData 4] ! 0] 4"
    by blast
  then have 3: "pinStatus [newPinData 4, newPinData 4] 4 = pinStatus [newPinData 4] 4"
    by simp
  from t have 4: "map pinNumber (fst (AvantPinSet [4, 4])) = [4, 4]"
    by blast
  from 1 2 3 4 h a show ?thesis
    unfolding pins by blast
qed

section \<open>One poll, seen from one pin\<close>

lemma update_map:
  "update level t pins =
     (map (\<lambda>pin. fst (update_pin level t pin)) pins,
      concat (map (\<lambda>pin. snd (update_pin level t pin)) pins))"
  by (induction pins) (simp_all add: split_beta)

lemma update_pin_idle: "\<not> isTimerActive pin \<Longrightarrow> update_pin level t pin = (pin, [])"
  by (simp add: update_pin_def)

lemma fire_out_pin: "e \<in> set (snd (fire pin)) \<Longrightarrow> io_pin e = pinNumber pin"
  by (auto simp: fire_def split: option.splits)

lemma update_pin_out_pin: "e \<in> set (snd (update_pin level t pin)) \<Longrightarrow> io_pin e = pinNumber pin"
  by (auto simp: update_pin_def Let_def split_beta fire_def split: if_splits option.splits)

lemma filter_concat_single:
  assumes "i < length xs" and "\<And>j. j < length xs \<Longrightarrow> j \<noteq> i \<Longrightarrow> filter P (g (xs ! j)) = []"
  shows "filter P (concat (map g xs)) = filter P (g (xs ! i))"
  using assms
proof (induction xs arbitrary: i)
  case Nil
  then show ?case by simp
next
  case (Cons x xs)
  show ?case
  proof (cases i)
    case 0
    have "filter P (concat (map g xs)) = []"
    proof -
      have "\<And>y. y \<in> set xs \<Longrightarrow> filter P (g y) = []"
      proof -
        fix y assume "y \<in> set xs"
        then obtain k where k: "k < length xs" "xs ! k = y"
          by (auto simp: in_set_conv_nth)
        with Cons.prems(2) [of "Suc k"] 0 show "filter P (g y) = []"
          by simp
      qed
      then show ?thesis
        by (induction xs) simp_all
    qed
    with 0 show ?thesis by simp
  next
    case (Suc k)
    with Cons.prems(1) have k: "k < length xs" by simp
    have r: "\<And>j. j < length xs \<Longrightarrow> j \<noteq> k \<Longrightarrow> filter P (g (xs ! j)) = []"
    proof -
      fix j assume "j < length xs" "j \<noteq> k"
      with Cons.prems(2) [of "Suc j"] Suc show "filter P (g (xs ! j)) = []"
        by simp
    qed
    from Cons.prems(2) [of 0] Suc have "filter P (g x) = []"
      by simp
    with Cons.IH [OF k r] Suc show ?thesis
      by simp
  qed
qed

lemma update_at_pin:
  assumes idle: "spares_idle pins" and i: "findPinData pins p = Some i"
  shows "pin_out p (snd (update level t pins)) = snd (update_pin level t (pins ! i))"
    and "fst (update level t pins) ! i = fst (update_pin level t (pins ! i))"
proof -
  from findPinData_Some_first [OF i] have il: "i < length pins" and ip: "pinNumber (pins ! i) = p"
    by simp_all
  let ?P = "\<lambda>e. io_pin e = p"
  let ?g = "\<lambda>pin. snd (update_pin level t pin)"
  have other: "filter ?P (?g (pins ! j)) = []" if j: "j < length pins" "j \<noteq> i" for j
  proof (cases "pinNumber (pins ! j) = p")
    case True
    with i j(2) have "findPinData pins (pinNumber (pins ! j)) \<noteq> Some j" by simp
    with idle j(1) have "\<not> isTimerActive (pins ! j)" by (simp add: spares_idle_def)
    then show ?thesis by (simp add: update_pin_idle)
  next
    case False
    then have "\<forall>e \<in> set (?g (pins ! j)). \<not> ?P e"
      using update_pin_out_pin [of _ level t "pins ! j"] by auto
    then show ?thesis by (simp add: filter_empty_conv)
  qed
  have "filter ?P (concat (map ?g pins)) = filter ?P (?g (pins ! i))"
    using il other by (rule filter_concat_single)
  moreover have "filter ?P (?g (pins ! i)) = ?g (pins ! i)"
    using update_pin_out_pin [of _ level t "pins ! i"] ip by (simp add: filter_id_conv)
  ultimately show "pin_out p (snd (update level t pins)) = snd (update_pin level t (pins ! i))"
    by (simp add: pin_out_def update_map)
  from il show "fst (update level t pins) ! i = fst (update_pin level t (pins ! i))"
    by (simp add: update_map)
qed

section \<open>Spare records stay idle\<close>

lemma pinNumber_nth:
  assumes "map pinNumber pins' = map pinNumber pins" and "j < length pins"
  shows "pinNumber (pins' ! j) = pinNumber (pins ! j)"
proof -
  from assms have "length pins' = length pins"
    using length_map by metis
  with assms(2) have "map pinNumber pins' ! j = pinNumber (pins' ! j)"
    and "map pinNumber pins ! j = pinNumber (pins ! j)"
    by simp_all
  with assms(1) show ?thesis by simp
qed

lemma spares_idle_init: "spares_idle (fst (AvantPinSet pinList))"
  by (simp add: spares_idle_def AvantPinSet_eq newPinData_def)

lemma spares_idle_on_pin:
  assumes idle: "spares_idle pins" and num: "\<And>pin. pinNumber (fst (body pin)) = pinNumber pin"
  shows "spares_idle (fst (on_pin pins p body))"
proof (cases "findPinData pins p")
  case None
  with idle show ?thesis by (simp add: on_pin_None)
next
  case (Some i)
  let ?pins' = "pins[i := fst (body (pins ! i))]"
  have eq: "fst (on_pin pins p body) = ?pins'"
    by (simp add: on_pin_Some [OF Some])
  have m: "map pinNumber ?pins' = map pinNumber pins"
    using on_pin_numbers [of body pins p, OF num] eq by simp
  from findPinData_Some_first [OF Some] have ip: "pinNumber (pins ! i) = p" by simp
  have "\<not> isTimerActive (?pins' ! j)"
    if j: "j < length ?pins'" "findPinData ?pins' (pinNumber (?pins' ! j)) \<noteq> Some j" for j
  proof -
    from j(1) have jl: "j < length pins" by simp
    have n: "pinNumber (?pins' ! j) = pinNumber (pins ! j)"
      using m jl by (rule pinNumber_nth)
    from j(2) have nf: "findPinData pins (pinNumber (pins ! j)) \<noteq> Some j"
      by (simp add: n findPinData_cong [OF m])
    with Some ip have "j \<noteq> i" by auto
    moreover from idle jl nf have "\<not> isTimerActive (pins ! j)"
      by (simp add: spares_idle_def)
    ultimately show ?thesis by simp
  qed
  then show ?thesis
    unfolding eq spares_idle_def by blast
qed

lemma spares_idle_update:
  assumes idle: "spares_idle pins"
  shows "spares_idle (fst (update level t pins))"
proof -
  let ?pins' = "fst (update level t pins)"
  have m: "map pinNumber ?pins' = map pinNumber pins"
    by (rule update_numbers)
  have l: "length ?pins' = length pins"
    by (simp add: update_map)
  have "\<not> isTimerActive (?pins' ! j)"
    if j: "j < length ?pins'" "findPinData ?pins' (pinNumber (?pins' ! j)) \<noteq> Some j" for j
  proof -
    from j(1) l have jl: "j < length pins" by simp
    have n: "pinNumber (?pins' ! j) = pinNumber (pins ! j)"
      using m jl by (rule pinNumber_nth)
    from j(2) have nf: "findPinData pins (pinNumber (pins ! j)) \<noteq> Some j"
      by (simp add: n findPinData_cong [OF m])
    with idle jl have i: "\<not> isTimerActive (pins ! j)"
      by (simp add: spares_idle_def)
    from jl have "?pins' ! j = fst (update_pin level t (pins ! j))"
      by (simp add: update_map)
    with i show ?thesis
      by (simp add: update_pin_idle)
  qed
  then show ?thesis
    unfolding spares_idle_def by blast
qed

lemma spares_idle_perform: "spares_idle pins \<Longrightarrow> spares_idle (fst (perform level pins c))"
  by (cases c)
     (simp_all add: spares_idle_update spares_idle_on_pin body_pinNumber digitalSet_def
        digitalSetTime_def pwmSet_def pwmSetTime_def pwmFade_def pwmFadeTime_def)

lemma fst_after: "fst (after level s c) = fst (perform level (fst s) c)"
  by (simp add: after_def split_beta)

lemma snd_after: "snd (after level s c) = snd s @ snd (perform level (fst s) c)"
  by (simp add: after_def split_beta)

lemma reachable_spares_idle: "reachable level s \<Longrightarrow> spares_idle (fst s)"
proof (induction rule: reachable.induct)
  case (constructed pinList)
  show ?case by (rule spares_idle_init)
next
  case (called s c)
  then show ?case by (simp add: fst_after spares_idle_perform)
qed

lemma reachable_run: "reachable level (run level pinList calls)"
proof (induction calls rule: rev_induct)
  case Nil
  show ?case by (simp add: run_def constructed)
next
  case (snoc c calls)
  then show ?case by (simp add: run_def called)
qed

lemma pin_out_append: "pin_out p (a @ b) = pin_out p a @ pin_out p b"
  by (simp add: pin_out_def)

lemma updates_at_pin:
  assumes "spares_idle pins" and "findPinData pins p = Some i"
  shows "pin_out p (snd (updates level ts pins)) = snd (polls level ts (pins ! i))
       \<and> fst (updates level ts pins) ! i = fst (polls level ts (pins ! i))"
  using assms
proof (induction ts arbitrary: pins)
  case Nil
  then show ?case by (simp add: pin_out_def)
next
  case (Cons t ts)
  let ?pins1 = "fst (update level t pins)"
  have idle1: "spares_idle ?pins1"
    using Cons.prems(1) by (rule spares_idle_update)
  have i1: "findPinData ?pins1 p = Some i"
    using Cons.prems(2) findPinData_cong [OF update_numbers, of level t pins p] by simp
  note ih = Cons.IH [OF idle1 i1]
  note u = update_at_pin [OF Cons.prems, of level t]
  from ih u show ?case
    by (simp add: split_beta pin_out_append)
qed

lemma polls_append:
  "polls level (xs @ ys) pin =
     (fst (polls level ys (fst (polls level xs pin))),
      snd (polls level xs pin) @ snd (polls level ys (fst (polls level xs pin))))"
  by (induction xs arbitrary: pin) (simp_all add: split_beta)

lemma polls_idle: "\<not> isTimerActive pin \<Longrightarrow> polls level ts pin = (pin, [])"
  by (induction ts) (simp_all add: update_pin_idle)

section \<open>Timers\<close>

lemma unat_seconds:
  fixes s :: ulong
  assumes "unat s * 1000 < 2 ^ 32"
  shows "unat (s * 1000) = unat s * 1000"
proof -
  have "unat (s * 1000) = (unat s * unat (1000 :: ulong)) mod 2 ^ LENGTH(32)"
    by (rule unat_word_ariths)
  also have "\<dots> = (unat s * 1000) mod 2 ^ 32"
    by simp
  also from assms have "\<dots> = unat s * 1000"
    by simp
  finally show ?thesis .
qed

lemma update_pin_wait:
  assumes "isTimerActive pin" and "currentMode pin \<noteq> ''fading''"
    and "t - startTime pin < duration pin"
  shows "update_pin level t pin = (pin, [])"
  using assms by (simp add: update_pin_def not_le [symmetric])

lemma polls_wait:
  assumes "isTimerActive pin" and "currentMode pin \<noteq> ''fading''"
    and "\<forall>t\<in>set ts. t - startTime pin < duration pin"
  shows "polls level ts pin = (pin, [])"
  using assms by (induction ts) (simp_all add: update_pin_wait)


lemma update_pin_due_pwm:
  assumes "isTimerActive pin" and "currentMode pin = ''pwm''"
    and "duration pin \<le> t - startTime pin"
  shows "snd (update_pin level t pin) =
           AnalogWrite (pinNumber pin) (targetValue pin)
           # (case callback pin of None \<Rightarrow> [] | Some c \<Rightarrow> [Invoke c (pinNumber pin)])"
    and "currentValue (fst (update_pin level t pin)) = targetValue pin"
    and "currentMode (fst (update_pin level t pin)) = ''pwm''"
    and "\<not> isTimerActive (fst (update_pin level t pin))"
    and "callback (fst (update_pin level t pin)) = None"
  using assms by (simp_all add: update_pin_def fire_def Let_def split: option.splits)

text \<open>The state a command leaves behind, seen from the pin it addressed.\<close>

lemma on_pin_after:
  assumes r: "reachable level (pins, tr)" and i: "findPinData pins p = Some i"
    and num: "\<And>pin. pinNumber (fst (body pin)) = pinNumber pin"
    and c: "on_pin pins p body = (pins0, out0)"
  shows "spares_idle pins0" and "findPinData pins0 p = Some i"
    and "pins0 ! i = fst (body (pins ! i))" and "out0 = snd (body (pins ! i))"
proof -
  from reachable_spares_idle [OF r] have "spares_idle pins" by simp
  from spares_idle_on_pin [OF this num, of p] c show "spares_idle pins0" by simp
  from on_pin_numbers [of body pins p, OF num] c have "map pinNumber pins0 = map pinNumber pins"
    by simp
  from findPinData_cong [OF this] i show "findPinData pins0 p = Some i" by simp
  from findPinData_Some_first [OF i] have "i < length pins" by simp
  with on_pin_Some [OF i, of body] c show "pins0 ! i = fst (body (pins ! i))"
    and "out0 = snd (body (pins ! i))"
    by simp_all
qed

lemma reachable_constructed: "reachable level (fst (AvantPinSet pinList), snd (AvantPinSet pinList))"
  by (simp add: constructed)




text \<open>
  C5. On a configured pin, \<open>pwmSetTime\<close> stores and writes the clamped duty cycle
  in PWM mode at once and arms a timer whose target is 255 when the clamped value
  is 0 and 0 otherwise. When \<open>delaySeconds * 1000\<close> fits in 32 bits, the polls
  before the counter has advanced by that much leave the pin alone, and the first
  poll at or after it writes the target with \<open>analogWrite\<close> and stores it.
\<close>

theorem pwmSetTime_reverts:
  assumes r: "reachable level (pins, tr)"
    and i: "findPinData pins p = Some i"
    and c: "pwmSetTime pins p v delaySeconds now cb = (pins0, out0)"
  shows "currentMode (pins0 ! i) = ''pwm'' \<and> currentValue (pins0 ! i) = constrain v 0 255
       \<and> out0 = [AnalogWrite p (constrain v 0 255)]
       \<and> isTimerActive (pins0 ! i)
       \<and> targetValue (pins0 ! i) = (if constrain v 0 255 = 0 then 255 else 0)
       \<and> (unat delaySeconds * 1000 < 2 ^ 32
            \<and> (\<forall>t\<in>set early. unat (t - now) < unat delaySeconds * 1000)
            \<and> unat delaySeconds * 1000 \<le> unat (due - now) \<longrightarrow>
          pin_out p (snd (updates level early pins0)) = []
          \<and> pin_out p (snd (updates level (early @ due # later) pins0)) =
              AnalogWrite p (if constrain v 0 255 = 0 then 255 else 0)
              # (case cb of None \<Rightarrow> [] | Some f \<Rightarrow> [Invoke f p])
          \<and> currentValue (fst (updates level (early @ [due]) pins0) ! i) =
              (if constrain v 0 255 = 0 then 255 else 0))"
proof -
  let ?r0 = "fst (pwmSetTime_body v delaySeconds now cb (pins ! i))"
  from findPinData_Some_first [OF i] have ip: "pinNumber (pins ! i) = p" by simp
  note a = on_pin_after [OF r i body_pinNumber(4) c [unfolded pwmSetTime_def]]
  have r0: "pins0 ! i = ?r0" by (rule a(3))
  have f: "isTimerActive ?r0" "currentMode ?r0 = ''pwm''" "startTime ?r0 = now"
    "duration ?r0 = delaySeconds * 1000" "pinNumber ?r0 = p" "callback ?r0 = cb"
    "targetValue ?r0 = (if constrain v 0 255 = 0 then 255 else 0)"
    "currentValue ?r0 = constrain v 0 255"
    by (simp_all add: pwmSetTime_body_def Let_def ip)
  have out: "out0 = [AnalogWrite p (constrain v 0 255)]"
    using a(4) by (simp add: pwmSetTime_body_def Let_def ip)
  have timed: "pin_out p (snd (updates level early pins0)) = []
          \<and> pin_out p (snd (updates level (early @ due # later) pins0)) =
              AnalogWrite p (if constrain v 0 255 = 0 then 255 else 0)
              # (case cb of None \<Rightarrow> [] | Some f \<Rightarrow> [Invoke f p])
          \<and> currentValue (fst (updates level (early @ [due]) pins0) ! i) =
              (if constrain v 0 255 = 0 then 255 else 0)"
    if fits: "unat delaySeconds * 1000 < 2 ^ 32"
      and early: "\<forall>t\<in>set early. unat (t - now) < unat delaySeconds * 1000"
      and due: "unat delaySeconds * 1000 \<le> unat (due - now)"
  proof -
    have w: "\<forall>t\<in>set early. t - startTime ?r0 < duration ?r0"
      using early by (simp add: f word_less_nat_alt unat_seconds [OF fits])
    have d: "duration ?r0 \<le> due - startTime ?r0"
      using due by (simp add: f word_le_nat_alt unat_seconds [OF fits])
    have pe: "polls level early ?r0 = (?r0, [])"
      using f(1) _ w by (rule polls_wait) (simp add: f)
    note u = update_pin_due_pwm [OF f(1,2) d, of level]
    let ?r1 = "fst (update_pin level due ?r0)"
    have pl: "polls level later ?r1 = (?r1, [])"
      using u(4) by (rule polls_idle)
    have 1: "pin_out p (snd (updates level early pins0)) = []"
      using updates_at_pin [OF a(1,2), of level early] by (simp add: r0 pe)
    have 2: "pin_out p (snd (updates level (early @ due # later) pins0)) =
             AnalogWrite p (if constrain v 0 255 = 0 then 255 else 0)
             # (case cb of None \<Rightarrow> [] | Some f \<Rightarrow> [Invoke f p])"
      using updates_at_pin [OF a(1,2), of level "early @ due # later"]
      by (simp add: r0 polls_append pe split_beta pl u(1) f body_pinNumber ip cong: option.case_cong)
    have 3: "fst (updates level (early @ [due]) pins0) ! i = ?r1"
      using updates_at_pin [OF a(1,2), of level "early @ [due]"]
      by (simp add: r0 polls_append pe split_beta)
    from 1 2 u(2) show ?thesis
      unfolding 3 by (simp add: f)
  qed
  from out timed f(1,2,7,8) show ?thesis
    unfolding r0 by blast
qed

theorem pwmSetTime_reverts_witness:
  "reachable exact_level (fst (AvantPinSet [5]), snd (AvantPinSet [5]))
   \<and> findPinData (fst (AvantPinSet [5])) 5 = Some 0
   \<and> unat (5 :: ulong) * 1000 < 2 ^ 32
   \<and> unat (2000 - 100 :: ulong) < unat (5 :: ulong) * 1000
   \<and> unat (5 :: ulong) * 1000 \<le> unat (5200 - 100 :: ulong)
   \<and> currentValue (fst (pwmSetTime (fst (AvantPinSet [5])) 5 300 5 100 (Some 7)) ! 0) = 255
   \<and> targetValue (fst (pwmSetTime (fst (AvantPinSet [5])) 5 300 5 100 (Some 7)) ! 0) = 0
   \<and> pin_out 5 (snd (updates exact_level ([2000] @ 5200 # [6000])
        (fst (pwmSetTime (fst (AvantPinSet [5])) 5 300 5 100 (Some 7))))) =
       [AnalogWrite 5 0, Invoke 7 5]"
proof -
  have h1: "reachable exact_level (fst (AvantPinSet [5]), snd (AvantPinSet [5]))"
    by (rule reachable_constructed)
  have h2: "findPinData (fst (AvantPinSet [5])) 5 = Some 0"
    by (simp add: AvantPinSet_eq newPinData_def)
  have h5: "pwmSetTime (fst (AvantPinSet [5])) 5 300 5 100 (Some 7) =
      (fst (pwmSetTime (fst (AvantPinSet [5])) 5 300 5 100 (Some 7)),
       snd (pwmSetTime (fst (AvantPinSet [5])) 5 300 5 100 (Some 7)))"
    by simp
  have h4: "unat (5 :: ulong) * 1000 < 2 ^ 32"
    by simp
  have h6: "\<forall>t\<in>set [2000 :: ulong]. unat (t - 100) < unat (5 :: ulong) * 1000"
    by simp
  have h7: "unat (5 :: ulong) * 1000 \<le> unat (5200 - 100 :: ulong)"
    by simp
  have k: "constrain 300 0 255 = 255"
    by (simp add: constrain_def)
  from pwmSetTime_reverts [OF h1 h2 h5, where early = "[2000]" and due = 5200 and later = "[6000]"] h1 h2 h4 h6 h7
  show ?thesis
    by (simp add: k)
qed

text \<open>
  C5, as stated, fails where the product wraps around: after
  \<open>pwmSetTime(5, 200, 4294968, cb)\<close> the target 0 is written 704 ms later, long
  before the delay has elapsed.
\<close>

theorem pwmSetTime_wraps_counterexample:
  "unat (704 - 0 :: ulong) < unat (4294968 :: ulong) * 1000
   \<and> pin_out 5 (snd (updates exact_level [704]
        (fst (pwmSetTime (fst (AvantPinSet [5])) 5 200 4294968 0 (Some 7))))) =
       [AnalogWrite 5 0, Invoke 7 5]"
  by (simp add: AvantPinSet_eq newPinData_def pwmSetTime_def on_pin_def
      pwmSetTime_body_def update_pin_def fire_def pin_out_def Let_def constrain_def)

section \<open>Fades\<close>










section \<open>The stored value and the output\<close>

lemma last_written_append:
  "last_written p (a @ b) = (case last_written p b of Some v \<Rightarrow> Some v | None \<Rightarrow> last_written p a)"
  by (induction a) (simp_all split: option.splits)

lemma last_written_other: "\<forall>e\<in>set out. io_pin e \<noteq> p \<Longrightarrow> last_written p out = None"
  by (induction out) (simp_all split: option.splits)

lemma last_written_pin_out: "last_written p (pin_out p out) = last_written p out"
  by (induction out) (simp_all add: pin_out_def split: option.splits)

lemma last_written_init:
  "last_written p (snd (AvantPinSet pinList)) = (if p \<in> set pinList then Some LOW else None)"
  by (induction pinList) (simp_all add: AvantPinSet_eq)

lemma body_in_step:
  "in_step (fst (digitalSet_body st pin)) (last_written (pinNumber pin) (tr @ snd (digitalSet_body st pin)))"
  "in_step (fst (digitalSetTime_body st d now cb pin))
     (last_written (pinNumber pin) (tr @ snd (digitalSetTime_body st d now cb pin)))"
  "in_step (fst (pwmSet_body v pin)) (last_written (pinNumber pin) (tr @ snd (pwmSet_body v pin)))"
  "in_step (fst (pwmSetTime_body v d now cb pin))
     (last_written (pinNumber pin) (tr @ snd (pwmSetTime_body v d now cb pin)))"
  "in_step (fst (pwmFade_body b f now now' pin))
     (last_written (pinNumber pin) (tr @ snd (pwmFade_body b f now now' pin)))"
  "in_step (fst (pwmFadeTime_body b f h now cb pin))
     (last_written (pinNumber pin) (tr @ snd (pwmFadeTime_body b f h now cb pin)))"
  by (simp_all add: in_step_def last_written_append digitalSet_body_def digitalSetTime_body_def
      pwmSet_body_def pwmSetTime_body_def pwmFade_body_def pwmFadeTime_body_def Let_def)

lemma body_out_pin:
  "e \<in> set (snd (digitalSet_body st pin)) \<Longrightarrow> io_pin e = pinNumber pin"
  "e \<in> set (snd (digitalSetTime_body st d now cb pin)) \<Longrightarrow> io_pin e = pinNumber pin"
  "e \<in> set (snd (pwmSet_body v pin)) \<Longrightarrow> io_pin e = pinNumber pin"
  "e \<in> set (snd (pwmSetTime_body v d now cb pin)) \<Longrightarrow> io_pin e = pinNumber pin"
  "e \<in> set (snd (pwmFade_body b f now now' pin)) \<Longrightarrow> io_pin e = pinNumber pin"
  "e \<in> set (snd (pwmFadeTime_body b f h now cb pin)) \<Longrightarrow> io_pin e = pinNumber pin"
  by (auto simp: digitalSet_body_def digitalSetTime_body_def
      pwmSet_body_def pwmSetTime_body_def pwmFade_body_def pwmFadeTime_body_def Let_def split: if_splits)

lemma update_pin_in_step:
  assumes "in_step pin (last_written (pinNumber pin) tr)"
  shows "in_step (fst (update_pin level t pin))
           (last_written (pinNumber pin) (tr @ snd (update_pin level t pin)))"
  using assms
  by (auto simp: in_step_def last_written_append update_pin_def Let_def fire_def split_beta
      split: option.splits if_splits)

lemma values_in_step_init: "values_in_step (AvantPinSet pinList)"
proof -
  have "in_step (newPinData (pinList ! j)) (last_written (pinNumber (newPinData (pinList ! j)))
          (snd (AvantPinSet pinList)))" if "j < length pinList" for j
  proof -
    from that have "pinList ! j \<in> set pinList" by simp
    then show ?thesis
      by (simp add: last_written_init) (simp add: newPinData_def in_step_def)
  qed
  then show ?thesis
    by (simp add: values_in_step_def AvantPinSet_eq)
qed

lemma values_in_step_on_pin:
  assumes inv: "values_in_step (pins, tr)"
    and num: "\<And>pin. pinNumber (fst (body pin)) = pinNumber pin"
    and out: "\<And>pin e. e \<in> set (snd (body pin)) \<Longrightarrow> io_pin e = pinNumber pin"
    and step: "\<And>pin tr. in_step (fst (body pin)) (last_written (pinNumber pin) (tr @ snd (body pin)))"
  shows "values_in_step (fst (on_pin pins p body), tr @ snd (on_pin pins p body))"
proof (cases "findPinData pins p")
  case None
  with inv show ?thesis by (simp add: on_pin_None)
next
  case (Some i)
  let ?pins' = "pins[i := fst (body (pins ! i))]"
  let ?out = "snd (body (pins ! i))"
  have eq: "on_pin pins p body = (?pins', ?out)"
    by (rule on_pin_Some [OF Some])
  have m: "map pinNumber ?pins' = map pinNumber pins"
    using on_pin_numbers [of body pins p, OF num] eq by simp
  from findPinData_Some_first [OF Some] have il: "i < length pins" and ip: "pinNumber (pins ! i) = p"
    by simp_all
  have "in_step (?pins' ! j) (last_written (pinNumber (?pins' ! j)) (tr @ ?out))"
    if j: "j < length ?pins'" "findPinData ?pins' (pinNumber (?pins' ! j)) = Some j" for j
  proof -
    from j(1) have jl: "j < length pins" by simp
    have n: "pinNumber (?pins' ! j) = pinNumber (pins ! j)"
      using m jl by (rule pinNumber_nth)
    from j(2) have first: "findPinData pins (pinNumber (pins ! j)) = Some j"
      by (simp add: n findPinData_cong [OF m])
    show ?thesis
    proof (cases "j = i")
      case True
      with il have "?pins' ! j = fst (body (pins ! i))" by simp
      with step [of "pins ! i" tr] num [of "pins ! i"] show ?thesis by simp
    next
      case False
      with first Some have "pinNumber (pins ! j) \<noteq> p" by auto
      with out [of _ "pins ! i"] ip have "\<forall>e\<in>set ?out. io_pin e \<noteq> pinNumber (pins ! j)"
        by auto
      then have "last_written (pinNumber (pins ! j)) (tr @ ?out) = last_written (pinNumber (pins ! j)) tr"
        by (simp add: last_written_append last_written_other)
      moreover from inv jl first have "in_step (pins ! j) (last_written (pinNumber (pins ! j)) tr)"
        by (simp add: values_in_step_def)
      ultimately show ?thesis
        using False by (simp add: n)
    qed
  qed
  then show ?thesis
    unfolding eq values_in_step_def by simp
qed

lemma values_in_step_update:
  assumes idle: "spares_idle pins" and inv: "values_in_step (pins, tr)"
  shows "values_in_step (fst (update level t pins), tr @ snd (update level t pins))"
proof -
  let ?pins' = "fst (update level t pins)"
  let ?out = "snd (update level t pins)"
  have m: "map pinNumber ?pins' = map pinNumber pins"
    by (rule update_numbers)
  have l: "length ?pins' = length pins"
    by (simp add: update_map)
  have "in_step (?pins' ! j) (last_written (pinNumber (?pins' ! j)) (tr @ ?out))"
    if j: "j < length ?pins'" "findPinData ?pins' (pinNumber (?pins' ! j)) = Some j" for j
  proof -
    from j(1) l have jl: "j < length pins" by simp
    let ?q = "pinNumber (pins ! j)"
    have n: "pinNumber (?pins' ! j) = ?q"
      using m jl by (rule pinNumber_nth)
    from j(2) have first: "findPinData pins ?q = Some j"
      by (simp add: n findPinData_cong [OF m])
    note u = update_at_pin [OF idle first, of level t]
    have "last_written ?q ?out = last_written ?q (snd (update_pin level t (pins ! j)))"
      using last_written_pin_out [of ?q ?out] u(1) by simp
    then have lw: "last_written ?q (tr @ ?out) = last_written ?q (tr @ snd (update_pin level t (pins ! j)))"
      by (simp add: last_written_append)
    from inv jl first have "in_step (pins ! j) (last_written ?q tr)"
      by (simp add: values_in_step_def)
    from update_pin_in_step [OF this, of level t] show ?thesis
      by (simp add: u(2) update_pin_pinNumber lw)
  qed
  then show ?thesis
    unfolding values_in_step_def by simp
qed

lemma values_in_step_perform:
  assumes "spares_idle pins" and "values_in_step (pins, tr)"
  shows "values_in_step (fst (perform level pins c), tr @ snd (perform level pins c))"
proof (cases c)
  case (Update t)
  with assms show ?thesis by (simp add: values_in_step_update)
next
  case (DigitalSet p st)
  with values_in_step_on_pin [OF assms(2), of "digitalSet_body st" p] show ?thesis
    by (simp add: digitalSet_def body_pinNumber body_out_pin body_in_step)
next
  case (DigitalSetTime p st d now cb)
  with values_in_step_on_pin [OF assms(2), of "digitalSetTime_body st d now cb" p] show ?thesis
    by (simp add: digitalSetTime_def body_pinNumber body_out_pin body_in_step)
next
  case (PwmSet p v)
  with values_in_step_on_pin [OF assms(2), of "pwmSet_body v" p] show ?thesis
    by (simp add: pwmSet_def body_pinNumber body_out_pin body_in_step)
next
  case (PwmSetTime p v d now cb)
  with values_in_step_on_pin [OF assms(2), of "pwmSetTime_body v d now cb" p] show ?thesis
    by (simp add: pwmSetTime_def body_pinNumber body_out_pin body_in_step)
next
  case (PwmFade p b f now now')
  with values_in_step_on_pin [OF assms(2), of "pwmFade_body b f now now'" p] show ?thesis
    by (simp add: pwmFade_def body_pinNumber body_out_pin body_in_step)
next
  case (PwmFadeTime p b f h now cb)
  with values_in_step_on_pin [OF assms(2), of "pwmFadeTime_body b f h now cb" p] show ?thesis
    by (simp add: pwmFadeTime_def body_pinNumber body_out_pin body_in_step)
qed

lemma reachable_values_in_step: "reachable level s \<Longrightarrow> values_in_step s"
proof (induction rule: reachable.induct)
  case (constructed pinList)
  show ?case by (rule values_in_step_init)
next
  case (called s c)
  from reachable_spares_idle [OF called.hyps] have "spares_idle (fst s)" .
  moreover from called.IH have "values_in_step (fst s, snd s)" by simp
  ultimately have "values_in_step (fst (perform level (fst s) c), snd s @ snd (perform level (fst s) c))"
    by (rule values_in_step_perform)
  then show ?case
    by (simp add: after_def split_beta)
qed

text \<open>
  Every write site but one stores the level in \<open>currentValue\<close> and then writes
  it. So in every state the sketch can reach, a record that its own number finds
  holds the level last written to its pin, as long as it is not in the
  interpolating phase of a fade (fading mode with \<open>isHoldingBeforeFade\<close> false).
\<close>

lemma stored_value_is_last_written:
  assumes "reachable level (pins, tr)" and "findPinData pins p = Some i"
    and "\<not> (currentMode (pins ! i) = ''fading'' \<and> \<not> isHoldingBeforeFade (pins ! i))"
  shows "last_written p tr = Some (currentValue (pins ! i))"
proof -
  from findPinData_Some_first [OF assms(2)] have il: "i < length pins" and ip: "pinNumber (pins ! i) = p"
    by simp_all
  from reachable_values_in_step [OF assms(1)] il ip assms(2)
  have "in_step (pins ! i) (last_written p tr)"
    by (auto simp: values_in_step_def)
  with assms(3) show ?thesis
    by (simp add: in_step_def)
qed

text \<open>
  C2. The claim has \<open>currentValue\<close> equal the level last written to the pin in
  every reachable state, the middle of a fade included. The interpolating branch
  of \<open>update()\<close> is the one write site that writes a local value and does not
  store it: 500 ms into \<open>pwmFade(9, 0, 255)\<close> the poll writes 127 to pin 9, and
  \<open>currentValue\<close> of its record is still 0.
\<close>

theorem fade_level_not_stored:
  "last_written 9 (snd (run exact_level [9] [PwmFade 9 0 255 0 0, Update 500])) = Some 127
   \<and> currentValue (fst (run exact_level [9] [PwmFade 9 0 255 0 0, Update 500]) ! 0) = 0
   \<and> currentMode (fst (run exact_level [9] [PwmFade 9 0 255 0 0, Update 500]) ! 0) = ''fading''"
  by (simp add: run_def after_def AvantPinSet_eq newPinData_def pwmFade_def on_pin_def
      pwmFade_body_def update_pin_def exact_level_def Let_def constrain_def)

section \<open>Clamping\<close>

lemma duty_levels: "duty HIGH" "duty LOW" "duty 0" "duty 255" "duty (constrain v 0 255)"
  by (simp_all add: duty_def HIGH_def LOW_def constrain_def)

lemma body_in_range:
  assumes "stored_in_range pin"
  shows "stored_in_range (fst (digitalSet_body st pin))"
    and "stored_in_range (fst (digitalSetTime_body st d now cb pin))"
    and "stored_in_range (fst (pwmSet_body v pin))"
    and "stored_in_range (fst (pwmSetTime_body v d now cb pin))"
    and "stored_in_range (fst (pwmFade_body b f now now' pin))"
    and "stored_in_range (fst (pwmFadeTime_body b f h now cb pin))"
  using assms
  by (simp_all add: stored_in_range_def duty_levels digitalSet_body_def digitalSetTime_body_def
      pwmSet_body_def pwmSetTime_body_def pwmFade_body_def pwmFadeTime_body_def Let_def)

lemma body_written_in_range:
  "e \<in> set (snd (digitalSet_body st pin)) \<Longrightarrow> written_in_range e"
  "e \<in> set (snd (digitalSetTime_body st d now cb pin)) \<Longrightarrow> written_in_range e"
  "e \<in> set (snd (pwmSet_body v pin)) \<Longrightarrow> written_in_range e"
  "e \<in> set (snd (pwmSetTime_body v d now cb pin)) \<Longrightarrow> written_in_range e"
  "e \<in> set (snd (pwmFade_body b f now now' pin)) \<Longrightarrow> written_in_range e"
  "e \<in> set (snd (pwmFadeTime_body b f h now cb pin)) \<Longrightarrow> written_in_range e"
  by (auto simp: written_in_range_def duty_levels digitalSet_body_def digitalSetTime_body_def
      pwmSet_body_def pwmSetTime_body_def pwmFade_body_def pwmFadeTime_body_def Let_def
      split: if_splits)

lemma update_pin_in_range:
  assumes "stored_in_range pin"
  shows "stored_in_range (fst (update_pin level t pin))"
  using assms
  by (auto simp: stored_in_range_def update_pin_def Let_def fire_def split_beta
      split: option.splits if_splits)

lemma update_pin_written_in_range:
  assumes "stored_in_range pin" and "level_in_range level"
    and "e \<in> set (snd (update_pin level t pin))"
  shows "written_in_range e"
proof -
  have l: "duty (level (t - fadeStartTime pin) (duration pin) (startPwmValue pin) (finishPwmValue pin))"
    if "\<not> duration pin \<le> t - fadeStartTime pin"
    using that assms(1,2) by (simp add: level_in_range_def stored_in_range_def not_le)
  from assms(1,3) l show ?thesis
    by (auto simp: stored_in_range_def written_in_range_def update_pin_def Let_def fire_def
        split_beta split: option.splits if_splits)
qed

lemma on_pin_in_range:
  assumes "\<forall>pin\<in>set pins. stored_in_range pin"
    and "\<And>pin. stored_in_range pin \<Longrightarrow> stored_in_range (fst (body pin))"
  shows "\<forall>pin\<in>set (fst (on_pin pins p body)). stored_in_range pin"
proof (cases "findPinData pins p")
  case None
  with assms(1) show ?thesis by (simp add: on_pin_None)
next
  case (Some i)
  from findPinData_Some_first [OF Some] have "i < length pins" by simp
  then have "pins ! i \<in> set pins" by simp
  with assms have "stored_in_range (fst (body (pins ! i)))" by blast
  with assms(1) set_update_subset_insert [of pins i "fst (body (pins ! i))"] show ?thesis
    by (auto simp: on_pin_Some [OF Some])
qed

lemma on_pin_written_in_range:
  assumes "\<And>pin e. e \<in> set (snd (body pin)) \<Longrightarrow> written_in_range e"
  shows "\<forall>e\<in>set (snd (on_pin pins p body)). written_in_range e"
proof (cases "findPinData pins p")
  case None
  then show ?thesis by (simp add: on_pin_None)
next
  case (Some i)
  with assms show ?thesis by (simp add: on_pin_Some [OF Some])
qed

lemma perform_in_range:
  assumes "\<forall>pin\<in>set pins. stored_in_range pin"
  shows "\<forall>pin\<in>set (fst (perform level pins c)). stored_in_range pin"
proof (cases c)
  case (Update t)
  with assms show ?thesis by (simp add: update_map update_pin_in_range)
next
  case (DigitalSet p st)
  with on_pin_in_range [OF assms, of "digitalSet_body st" p] show ?thesis
    by (simp add: digitalSet_def body_in_range)
next
  case (DigitalSetTime p st d now cb)
  with on_pin_in_range [OF assms, of "digitalSetTime_body st d now cb" p] show ?thesis
    by (simp add: digitalSetTime_def body_in_range)
next
  case (PwmSet p v)
  with on_pin_in_range [OF assms, of "pwmSet_body v" p] show ?thesis
    by (simp add: pwmSet_def body_in_range)
next
  case (PwmSetTime p v d now cb)
  with on_pin_in_range [OF assms, of "pwmSetTime_body v d now cb" p] show ?thesis
    by (simp add: pwmSetTime_def body_in_range)
next
  case (PwmFade p b f now now')
  with on_pin_in_range [OF assms, of "pwmFade_body b f now now'" p] show ?thesis
    by (simp add: pwmFade_def body_in_range)
next
  case (PwmFadeTime p b f h now cb)
  with on_pin_in_range [OF assms, of "pwmFadeTime_body b f h now cb" p] show ?thesis
    by (simp add: pwmFadeTime_def body_in_range)
qed

lemma perform_written_in_range:
  assumes "\<forall>pin\<in>set pins. stored_in_range pin" and "level_in_range level"
  shows "\<forall>e\<in>set (snd (perform level pins c)). written_in_range e"
proof (cases c)
  case (Update t)
  with assms update_pin_written_in_range [of _ level _ t] show ?thesis
    by (auto simp: update_map)
next
  case (DigitalSet p st)
  with on_pin_written_in_range [of "digitalSet_body st" pins p] show ?thesis
    by (simp add: digitalSet_def body_written_in_range)
next
  case (DigitalSetTime p st d now cb)
  with on_pin_written_in_range [of "digitalSetTime_body st d now cb" pins p] show ?thesis
    by (simp add: digitalSetTime_def body_written_in_range)
next
  case (PwmSet p v)
  with on_pin_written_in_range [of "pwmSet_body v" pins p] show ?thesis
    by (simp add: pwmSet_def body_written_in_range)
next
  case (PwmSetTime p v d now cb)
  with on_pin_written_in_range [of "pwmSetTime_body v d now cb" pins p] show ?thesis
    by (simp add: pwmSetTime_def body_written_in_range)
next
  case (PwmFade p b f now now')
  with on_pin_written_in_range [of "pwmFade_body b f now now'" pins p] show ?thesis
    by (simp add: pwmFade_def body_written_in_range)
next
  case (PwmFadeTime p b f h now cb)
  with on_pin_written_in_range [of "pwmFadeTime_body b f h now cb" pins p] show ?thesis
    by (simp add: pwmFadeTime_def body_written_in_range)
qed

lemma reachable_stored_in_range:
  "reachable level s \<Longrightarrow> \<forall>pin\<in>set (fst s). stored_in_range pin"
proof (induction rule: reachable.induct)
  case (constructed pinList)
  show ?case
    by (auto simp: AvantPinSet_eq newPinData_def stored_in_range_def duty_levels)
next
  case (called s c)
  then show ?case
    by (simp add: fst_after perform_in_range)
qed

lemma reachable_written_in_range:
  "reachable level s \<Longrightarrow> level_in_range level \<Longrightarrow> \<forall>e\<in>set (snd s). written_in_range e"
proof (induction rule: reachable.induct)
  case (constructed pinList)
  show ?case
    by (auto simp: AvantPinSet_eq written_in_range_def duty_levels)
next
  case (called s c)
  from reachable_stored_in_range [OF called.hyps] called.prems
  have "\<forall>e\<in>set (snd (perform level (fst s) c)). written_in_range e"
    by (rule perform_written_in_range)
  with called show ?case
    by (auto simp: snd_after)
qed

lemma exact_level_in_range: "level_in_range exact_level"
proof -
  have "duty (exact_level e d a b)" if ed: "e < d" and a: "duty a" and b: "duty b" for e d a b
  proof -
    define D E n where "D = uint d" and "E = uint e" and "n = a * D + E * (b - a)"
    from ed have ED: "E < D" by (simp add: word_less_def D_def E_def)
    have E0: "0 \<le> E" by (simp add: E_def)
    from ED E0 have D0: "0 < D" by (rule le_less_trans [rotated])
    have eq: "n = a * (D - E) + E * b"
      by (simp add: n_def algebra_simps)
    from a b ED E0 have "0 \<le> a * (D - E)" "0 \<le> E * b"
      by (simp_all add: duty_def)
    with eq have n0: "0 \<le> n" by simp
    from a ED have "a * (D - E) \<le> 255 * (D - E)"
      by (intro mult_right_mono) (simp_all add: duty_def)
    moreover from b E0 have "E * b \<le> E * 255"
      by (intro mult_left_mono) (simp_all add: duty_def)
    ultimately have n1: "n \<le> 255 * D"
      using eq by simp
    from D0 n0 have q0: "0 \<le> n div D"
      by (simp only: pos_imp_zdiv_nonneg_iff)
    from n1 D0 have "n div D \<le> (255 * D) div D"
      by (rule zdiv_mono1)
    with D0 have q1: "n div D \<le> 255" by simp
    have "exact_level e d a b = sgn n * (\<bar>n\<bar> div D)"
      by (simp add: exact_level_def Let_def n_def D_def E_def)
    also from n0 have "\<dots> = (if n = 0 then 0 else n div D)"
      by (simp add: sgn_if)
    finally show ?thesis
      using q0 q1 by (simp add: duty_def)
  qed
  then show ?thesis
    by (simp add: level_in_range_def)
qed

text \<open>
  C8. Whatever duty cycle or fade end point is passed to \<open>pwmSet\<close>,
  \<open>pwmSetTime\<close>, \<open>pwmFade\<close> or \<open>pwmFadeTime\<close> on a configured pin, what the
  command stores in the record and writes to the pin is the value clamped into the
  interval from 0 to 255: 0 for a negative input, 255 for an input above 255. In
  every state the sketch can reach, every value a record stores is in that interval;
  so is every level ever written, given that the floating-point interpolation of a
  fade stays in range between end points in range.
\<close>

theorem pwm_values_clamped:
  "(findPinData pins pinNum = Some i \<longrightarrow>
      duty (constrain v 0 255) \<and> duty (constrain w 0 255)
      \<and> (v < 0 \<longrightarrow> constrain v 0 255 = 0) \<and> (255 < v \<longrightarrow> constrain v 0 255 = 255)
      \<and> currentValue (fst (pwmSet pins pinNum v) ! i) = constrain v 0 255
      \<and> snd (pwmSet pins pinNum v) = [AnalogWrite pinNum (constrain v 0 255)]
      \<and> currentValue (fst (pwmSetTime pins pinNum v delaySeconds now cb) ! i) = constrain v 0 255
      \<and> targetValue (fst (pwmSetTime pins pinNum v delaySeconds now cb) ! i) \<in> {0, 255}
      \<and> snd (pwmSetTime pins pinNum v delaySeconds now cb) = [AnalogWrite pinNum (constrain v 0 255)]
      \<and> currentValue (fst (pwmFade pins pinNum v w now now') ! i) = constrain v 0 255
      \<and> startPwmValue (fst (pwmFade pins pinNum v w now now') ! i) = constrain v 0 255
      \<and> finishPwmValue (fst (pwmFade pins pinNum v w now now') ! i) = constrain w 0 255
      \<and> snd (pwmFade pins pinNum v w now now') = [AnalogWrite pinNum (constrain v 0 255)]
      \<and> currentValue (fst (pwmFadeTime pins pinNum v w holdSeconds now cb) ! i) = constrain v 0 255
      \<and> startPwmValue (fst (pwmFadeTime pins pinNum v w holdSeconds now cb) ! i) = constrain v 0 255
      \<and> finishPwmValue (fst (pwmFadeTime pins pinNum v w holdSeconds now cb) ! i) = constrain w 0 255
      \<and> snd (pwmFadeTime pins pinNum v w holdSeconds now cb) = [AnalogWrite pinNum (constrain v 0 255)])
   \<and> (reachable level (pins, tr) \<longrightarrow> (\<forall>pin\<in>set pins. stored_in_range pin))
   \<and> (reachable level (pins, tr) \<and> level_in_range level \<longrightarrow> (\<forall>e\<in>set tr. written_in_range e))"
proof -
  have cmd: "duty (constrain v 0 255) \<and> duty (constrain w 0 255)
      \<and> (v < 0 \<longrightarrow> constrain v 0 255 = 0) \<and> (255 < v \<longrightarrow> constrain v 0 255 = 255)
      \<and> currentValue (fst (pwmSet pins pinNum v) ! i) = constrain v 0 255
      \<and> snd (pwmSet pins pinNum v) = [AnalogWrite pinNum (constrain v 0 255)]
      \<and> currentValue (fst (pwmSetTime pins pinNum v delaySeconds now cb) ! i) = constrain v 0 255
      \<and> targetValue (fst (pwmSetTime pins pinNum v delaySeconds now cb) ! i) \<in> {0, 255}
      \<and> snd (pwmSetTime pins pinNum v delaySeconds now cb) = [AnalogWrite pinNum (constrain v 0 255)]
      \<and> currentValue (fst (pwmFade pins pinNum v w now now') ! i) = constrain v 0 255
      \<and> startPwmValue (fst (pwmFade pins pinNum v w now now') ! i) = constrain v 0 255
      \<and> finishPwmValue (fst (pwmFade pins pinNum v w now now') ! i) = constrain w 0 255
      \<and> snd (pwmFade pins pinNum v w now now') = [AnalogWrite pinNum (constrain v 0 255)]
      \<and> currentValue (fst (pwmFadeTime pins pinNum v w holdSeconds now cb) ! i) = constrain v 0 255
      \<and> startPwmValue (fst (pwmFadeTime pins pinNum v w holdSeconds now cb) ! i) = constrain v 0 255
      \<and> finishPwmValue (fst (pwmFadeTime pins pinNum v w holdSeconds now cb) ! i) = constrain w 0 255
      \<and> snd (pwmFadeTime pins pinNum v w holdSeconds now cb) = [AnalogWrite pinNum (constrain v 0 255)]"
    if f: "findPinData pins pinNum = Some i"
  proof -
    from findPinData_Some_first [OF f] have i: "i < length pins" and n: "pinNumber (pins ! i) = pinNum"
      by simp_all
    have 1: "currentValue (fst (pwmSet pins pinNum v) ! i) = constrain v 0 255
         \<and> snd (pwmSet pins pinNum v) = [AnalogWrite pinNum (constrain v 0 255)]"
      by (simp add: pwmSet_Some [OF f] i n pwmSet_body_def Let_def)
    have 2: "currentValue (fst (pwmSetTime pins pinNum v delaySeconds now cb) ! i) = constrain v 0 255
         \<and> targetValue (fst (pwmSetTime pins pinNum v delaySeconds now cb) ! i) \<in> {0, 255}
         \<and> snd (pwmSetTime pins pinNum v delaySeconds now cb) = [AnalogWrite pinNum (constrain v 0 255)]"
      by (simp add: pwmSetTime_Some [OF f] i n pwmSetTime_body_def Let_def)
    have 3: "currentValue (fst (pwmFade pins pinNum v w now now') ! i) = constrain v 0 255
         \<and> startPwmValue (fst (pwmFade pins pinNum v w now now') ! i) = constrain v 0 255
         \<and> finishPwmValue (fst (pwmFade pins pinNum v w now now') ! i) = constrain w 0 255
         \<and> snd (pwmFade pins pinNum v w now now') = [AnalogWrite pinNum (constrain v 0 255)]"
      by (simp add: pwmFade_Some [OF f] i n pwmFade_body_def Let_def)
    have 4: "currentValue (fst (pwmFadeTime pins pinNum v w holdSeconds now cb) ! i) = constrain v 0 255
         \<and> startPwmValue (fst (pwmFadeTime pins pinNum v w holdSeconds now cb) ! i) = constrain v 0 255
         \<and> finishPwmValue (fst (pwmFadeTime pins pinNum v w holdSeconds now cb) ! i) = constrain w 0 255
         \<and> snd (pwmFadeTime pins pinNum v w holdSeconds now cb) = [AnalogWrite pinNum (constrain v 0 255)]"
      by (simp add: pwmFadeTime_Some [OF f] i n pwmFadeTime_body_def Let_def)
    from duty_levels(5) [of v] duty_levels(5) [of w] constrain_cases [of v] 1 2 3 4 show ?thesis
      by blast
  qed
  have stored: "\<forall>pin\<in>set pins. stored_in_range pin" if "reachable level (pins, tr)"
    using reachable_stored_in_range [OF that] by simp
  have wrote: "\<forall>e\<in>set tr. written_in_range e" if "reachable level (pins, tr)" "level_in_range level"
    using reachable_written_in_range [OF that] by simp
  from cmd stored wrote show ?thesis
    by blast
qed

theorem pwm_values_clamped_witness:
  "findPinData (fst (AvantPinSet [2, 6])) 6 = Some 1
   \<and> currentValue (fst (pwmSet (fst (AvantPinSet [2, 6])) 6 300) ! 1) = 255
   \<and> snd (pwmSet (fst (AvantPinSet [2, 6])) 6 300) = [AnalogWrite 6 255]
   \<and> startPwmValue (fst (pwmFadeTime (fst (AvantPinSet [2, 6])) 6 (- 4) 999 2 0 None) ! 1) = 0
   \<and> finishPwmValue (fst (pwmFadeTime (fst (AvantPinSet [2, 6])) 6 (- 4) 999 2 0 None) ! 1) = 255
   \<and> reachable exact_level (fst (run exact_level [2, 6] [PwmFade 6 (- 4) 999 0 0, Update 500]),
        snd (run exact_level [2, 6] [PwmFade 6 (- 4) 999 0 0, Update 500]))
   \<and> stored_in_range (fst (run exact_level [2, 6] [PwmFade 6 (- 4) 999 0 0, Update 500]) ! 1)
   \<and> AnalogWrite 6 127 \<in> set (snd (run exact_level [2, 6] [PwmFade 6 (- 4) 999 0 0, Update 500]))
   \<and> written_in_range (AnalogWrite 6 127)"
proof -
  let ?s = "run exact_level [2, 6] [PwmFade 6 (- 4) 999 0 0, Update 500]"
  have h: "findPinData (fst (AvantPinSet [2, 6])) 6 = Some 1"
    by (simp add: AvantPinSet_eq newPinData_def)
  have c: "constrain 300 0 255 = 255" "constrain (- 4) 0 255 = 0" "constrain 999 0 255 = 255"
    by (simp_all add: constrain_def)
  note t1 = pwm_values_clamped [where pins = "fst (AvantPinSet [2, 6])" and pinNum = 6 and i = 1
      and v = 300 and w = 999 and holdSeconds = 2 and now = 0 and now' = 0 and delaySeconds = 1
      and cb = None and level = exact_level and tr = "[]"]
  note t2 = pwm_values_clamped [where pins = "fst (AvantPinSet [2, 6])" and pinNum = 6 and i = 1
      and v = "- 4" and w = 999 and holdSeconds = 2 and now = 0 and now' = 0 and delaySeconds = 1
      and cb = None and level = exact_level and tr = "[]"]
  note t3 = pwm_values_clamped [where pins = "fst ?s" and tr = "snd ?s" and level = exact_level
      and pinNum = 6 and i = 1 and v = 0 and w = 0 and holdSeconds = 0 and now = 0 and now' = 0
      and delaySeconds = 0 and cb = None]
  from t1 h have a: "currentValue (fst (pwmSet (fst (AvantPinSet [2, 6])) 6 300) ! 1) = constrain 300 0 255
      \<and> snd (pwmSet (fst (AvantPinSet [2, 6])) 6 300) = [AnalogWrite 6 (constrain 300 0 255)]"
    by blast
  from t2 h have b: "startPwmValue (fst (pwmFadeTime (fst (AvantPinSet [2, 6])) 6 (- 4) 999 2 0 None) ! 1)
        = constrain (- 4) 0 255
      \<and> finishPwmValue (fst (pwmFadeTime (fst (AvantPinSet [2, 6])) 6 (- 4) 999 2 0 None) ! 1)
        = constrain 999 0 255"
    by blast
  have r: "reachable exact_level (fst ?s, snd ?s)"
    using reachable_run [of exact_level "[2, 6]" "[PwmFade 6 (- 4) 999 0 0, Update 500]"] by simp
  have l: "length (fst ?s) = 2"
    by (simp add: run_def after_def AvantPinSet_eq pwmFade_def on_pin_def newPinData_def update_map
        split_beta)
  then have m: "fst ?s ! 1 \<in> set (fst ?s)"
    by simp
  have e: "AnalogWrite 6 127 \<in> set (snd ?s)"
    by (simp add: run_def after_def AvantPinSet_eq newPinData_def pwmFade_def on_pin_def
        pwmFade_body_def update_pin_def exact_level_def Let_def constrain_def)
  from t3 r m have s: "stored_in_range (fst ?s ! 1)"
    by blast
  from t3 r exact_level_in_range e have w: "written_in_range (AnalogWrite 6 127)"
    by blast
  from a b h r s e w show ?thesis
    unfolding c by blast
qed

section \<open>The status of a pin\<close>

lemma pinStatus_configured:
  assumes "findPinData pins p = Some i"
  shows "pinStatus pins p =
           [(''mode'', currentMode (pins ! i)),
            (''value'', if currentMode (pins ! i) = ''digital''
                        then (if currentValue (pins ! i) = HIGH then ''HIGH'' else ''LOW'')
                        else String_of_int (currentValue (pins ! i)))]"
  using assms by (simp add: pinStatus_def Let_def)

lemma body_known_mode:
  "known_mode (fst (digitalSet_body st pin))"
  "known_mode (fst (digitalSetTime_body st d now cb pin))"
  "known_mode (fst (pwmSet_body v pin))"
  "known_mode (fst (pwmSetTime_body v d now cb pin))"
  "known_mode (fst (pwmFade_body b f now now' pin))"
  "known_mode (fst (pwmFadeTime_body b f h now cb pin))"
  by (simp_all add: known_mode_def digitalSet_body_def digitalSetTime_body_def
      pwmSet_body_def pwmSetTime_body_def pwmFade_body_def pwmFadeTime_body_def Let_def)

lemma update_pin_known_mode: "known_mode pin \<Longrightarrow> known_mode (fst (update_pin level t pin))"
  by (auto simp: known_mode_def update_pin_def Let_def fire_def split_beta
      split: option.splits if_splits)

lemma on_pin_known_mode:
  assumes "\<forall>pin\<in>set pins. known_mode pin" and "\<And>pin. known_mode (fst (body pin))"
  shows "\<forall>pin\<in>set (fst (on_pin pins p body)). known_mode pin"
proof (cases "findPinData pins p")
  case None
  with assms(1) show ?thesis by (simp add: on_pin_None)
next
  case (Some i)
  with assms set_update_subset_insert [of pins i "fst (body (pins ! i))"] show ?thesis
    by (auto simp: on_pin_Some [OF Some])
qed

lemma perform_known_mode:
  assumes "\<forall>pin\<in>set pins. known_mode pin"
  shows "\<forall>pin\<in>set (fst (perform level pins c)). known_mode pin"
proof (cases c)
  case (Update t)
  with assms show ?thesis by (simp add: update_map update_pin_known_mode)
next
  case (DigitalSet p st)
  with on_pin_known_mode [OF assms, of "digitalSet_body st" p] show ?thesis
    by (simp add: digitalSet_def body_known_mode)
next
  case (DigitalSetTime p st d now cb)
  with on_pin_known_mode [OF assms, of "digitalSetTime_body st d now cb" p] show ?thesis
    by (simp add: digitalSetTime_def body_known_mode)
next
  case (PwmSet p v)
  with on_pin_known_mode [OF assms, of "pwmSet_body v" p] show ?thesis
    by (simp add: pwmSet_def body_known_mode)
next
  case (PwmSetTime p v d now cb)
  with on_pin_known_mode [OF assms, of "pwmSetTime_body v d now cb" p] show ?thesis
    by (simp add: pwmSetTime_def body_known_mode)
next
  case (PwmFade p b f now now')
  with on_pin_known_mode [OF assms, of "pwmFade_body b f now now'" p] show ?thesis
    by (simp add: pwmFade_def body_known_mode)
next
  case (PwmFadeTime p b f h now cb)
  with on_pin_known_mode [OF assms, of "pwmFadeTime_body b f h now cb" p] show ?thesis
    by (simp add: pwmFadeTime_def body_known_mode)
qed

lemma reachable_known_mode: "reachable level s \<Longrightarrow> \<forall>pin\<in>set (fst s). known_mode pin"
proof (induction rule: reachable.induct)
  case (constructed pinList)
  show ?case
    by (auto simp: AvantPinSet_eq newPinData_def known_mode_def)
next
  case (called s c)
  then show ?case
    by (simp add: fst_after perform_known_mode)
qed

text \<open>
  C6. The claim has \<open>pinStatus\<close> report the mode of a pin in PWM mode as
  \<open>PWM\<close>, as the example in the header does. The record holds the mode as the
  string \<open>pwm\<close>, and \<open>pinStatus\<close> copies that string: after \<open>pwmSet(6, 88)\<close> the
  status of pin 6 has the mode \<open>pwm\<close>.
\<close>

theorem pwm_mode_reported_lowercase:
  "pinStatus (fst (pwmSet (fst (AvantPinSet [6])) 6 88)) 6 = [(''mode'', ''pwm''), (''value'', ''88'')]"
  by (simp add: pwmSet_def on_pin_def pwmSet_body_def pinStatus_def newPinData_def
      constrain_def String_of_int_def)

section \<open>Commands and the pending callback\<close>

lemma commands_and_callback:
  assumes "findPinData pins p = Some i"
  shows "callback (fst (digitalSet pins p st) ! i) = None"
    and "callback (fst (digitalSetTime pins p st d now cb) ! i) = cb"
    and "callback (fst (pwmSet pins p v) ! i) = None"
    and "callback (fst (pwmSetTime pins p v d now cb) ! i) = cb"
    and "callback (fst (pwmFadeTime pins p b f h now cb) ! i) = cb"
    and "callback (fst (pwmFade pins p b f now now') ! i) = callback (pins ! i)"
proof -
  from findPinData_Some_first [OF assms] have i: "i < length pins"
    by simp
  show "callback (fst (digitalSet pins p st) ! i) = None"
    by (simp add: digitalSet_Some [OF assms] i digitalSet_body_def Let_def)
  show "callback (fst (digitalSetTime pins p st d now cb) ! i) = cb"
    by (simp add: digitalSetTime_Some [OF assms] i digitalSetTime_body_def Let_def)
  show "callback (fst (pwmSet pins p v) ! i) = None"
    by (simp add: pwmSet_Some [OF assms] i pwmSet_body_def Let_def)
  show "callback (fst (pwmSetTime pins p v d now cb) ! i) = cb"
    by (simp add: pwmSetTime_Some [OF assms] i pwmSetTime_body_def Let_def)
  show "callback (fst (pwmFadeTime pins p b f h now cb) ! i) = cb"
    by (simp add: pwmFadeTime_Some [OF assms] i pwmFadeTime_body_def Let_def)
  show "callback (fst (pwmFade pins p b f now now') ! i) = callback (pins ! i)"
    by (simp add: pwmFade_Some [OF assms] i pwmFade_body_def Let_def)
qed

text \<open>
  C1. The claim has every command discard the callback of a pending timer, unrun.
  \<open>pwmFade\<close> does not: it arms the fade and leaves \<open>callback\<close> as it was, so the
  callback that \<open>digitalSetTime\<close> armed is still there after \<open>pwmFade\<close>, and the
  poll that completes the fade calls it.
\<close>

theorem pwmFade_keeps_callback:
  "callback (fst (run exact_level [5]
      [DigitalSetTime 5 HIGH 10 0 (Some 7), PwmFade 5 0 255 100 100]) ! 0) = Some 7
   \<and> snd (update exact_level 1100 (fst (run exact_level [5]
      [DigitalSetTime 5 HIGH 10 0 (Some 7), PwmFade 5 0 255 100 100]))) =
       [AnalogWrite 5 255, Invoke 7 5]"
  by (simp add: run_def after_def AvantPinSet_eq newPinData_def digitalSetTime_def pwmFade_def
      on_pin_def digitalSetTime_body_def pwmFade_body_def update_pin_def fire_def Let_def
      constrain_def)

end
